theory Spec2Isabelle
  imports Complex_Main
begin

section \<open>Errors and results\<close>

text \<open>
  Every raise of the Python sources is a value: a computation returns \<open>error + 'a\<close>,
  with \<open>Inl\<close> for the exception. \<open>bindE\<close> sequences two computations and stops at
  the first exception, as the interpreter does.
\<close>

datatype error =
    RuntimeError string
  | AssertionError string
  | IndexError
  | TypeError
  | ValueError
  | ZeroDivisionError
  | NotImplementedError

definition bindE :: "error + 'a \<Rightarrow> ('a \<Rightarrow> error + 'b) \<Rightarrow> error + 'b" where
  "bindE m f = (case m of Inl e \<Rightarrow> Inl e | Inr v \<Rightarrow> f v)"

section \<open>Tensors\<close>

text \<open>
  A dense tensor is its size (\<open>dims\<close>, what \<open>x.size()\<close> returns) and its entries in
  row-major order (\<open>elems\<close>). Entries are real numbers: the rounding of floating-point
  arithmetic is not modelled.
\<close>

record tensor =
  dims :: "nat list"
  elems :: "real list"

definition wf :: "tensor \<Rightarrow> bool" where
  "wf t = (length (elems t) = prod_list (dims t))"

text \<open>\<open>t.size(k)\<close>: an IndexError when the tensor has no dimension \<open>k\<close>.\<close>

definition size_at :: "tensor \<Rightarrow> nat \<Rightarrow> error + nat" where
  "size_at t k = (if k < length (dims t) then Inr (dims t ! k) else Inl IndexError)"

text \<open>\<open>t.mul(c)\<close> and \<open>t + c\<close> for a Python scalar \<open>c\<close>.\<close>

definition mul_scalar :: "tensor \<Rightarrow> real \<Rightarrow> tensor" where
  "mul_scalar t c = t\<lparr>elems := map (\<lambda>v. v * c) (elems t)\<rparr>"

definition add_scalar :: "tensor \<Rightarrow> real \<Rightarrow> tensor" where
  "add_scalar t c = t\<lparr>elems := map (\<lambda>v. v + c) (elems t)\<rparr>"

text \<open>\<open>x.new_zeros(*ds)\<close>.\<close>

definition new_zeros :: "nat list \<Rightarrow> tensor" where
  "new_zeros ds = \<lparr>dims = ds, elems = replicate (prod_list ds) 0\<rparr>"

text \<open>
  \<open>rows b n xs\<close> cuts the first \<open>b * n\<close> entries of a row-major list into \<open>b\<close>
  consecutive blocks of \<open>n\<close> entries: the sub-tensors along the leading dimension.
\<close>

definition rows :: "nat \<Rightarrow> nat \<Rightarrow> 'a list \<Rightarrow> 'a list list" where
  "rows b n xs = map (\<lambda>i. take n (drop (i * n) xs)) [0..<b]"

text \<open>
  \<open>t.view(*ds)\<close> with every size given, and \<open>t.view(b, -1)\<close> where the second size
  is inferred. A view keeps the entries and their order; it raises when the number of
  entries does not fit, and \<open>-1\<close> cannot be inferred beside a size \<open>0\<close>. Tensors are
  taken to be contiguous.
\<close>

definition view :: "tensor \<Rightarrow> nat list \<Rightarrow> error + tensor" where
  "view t ds =
     (if prod_list ds = prod_list (dims t) then Inr \<lparr>dims = ds, elems = elems t\<rparr>
      else Inl (RuntimeError ''shape is invalid for input size''))"

definition view_infer :: "tensor \<Rightarrow> nat \<Rightarrow> error + tensor" where
  "view_infer t b =
     (if b = 0 then Inl (RuntimeError ''cannot infer the unspecified dimension'')
      else if prod_list (dims t) mod b \<noteq> 0 then
        Inl (RuntimeError ''shape is invalid for input size'')
      else Inr \<lparr>dims = [b, prod_list (dims t) div b], elems = elems t\<rparr>)"

text \<open>\<open>t.unsqueeze(1)\<close>.\<close>

definition unsqueeze1 :: "tensor \<Rightarrow> error + tensor" where
  "unsqueeze1 t =
     (case dims t of
        [] \<Rightarrow> Inl IndexError
      | b # rest \<Rightarrow> Inr \<lparr>dims = b # 1 # rest, elems = elems t\<rparr>)"

text \<open>
  Broadcasting. The shorter size is padded with leading 1s (\<open>pad_dims\<close>); two sizes
  of the same rank broadcast when, in every dimension, they agree or one of them is 1
  (\<open>bdims\<close>). \<open>expand\<close> repeats the entries of a tensor of size \<open>ms\<close> to the
  broadcast size \<open>ns\<close>: where a dimension of size 1 meets a larger one, the block is
  repeated.
\<close>

definition pad_dims :: "nat \<Rightarrow> nat list \<Rightarrow> nat list" where
  "pad_dims r ds = replicate (r - length ds) 1 @ ds"

fun bdims :: "nat list \<Rightarrow> nat list \<Rightarrow> nat list option" where
  "bdims [] [] = Some []"
| "bdims (m # ms) (n # ns) =
     (if m = n \<or> n = 1 then map_option ((#) m) (bdims ms ns)
      else if m = 1 then map_option ((#) n) (bdims ms ns)
      else None)"
| "bdims ms ns = None"

fun expand :: "nat list \<Rightarrow> nat list \<Rightarrow> real list \<Rightarrow> real list" where
  "expand (m # ms) (n # ns) xs =
     (if m = n then concat (map (expand ms ns) (rows m (prod_list ms) xs))
      else concat (replicate n (expand ms ns xs)))"
| "expand ms ns xs = xs"

text \<open>An elementwise binary operation of two tensors, with broadcasting.\<close>

definition binop :: "(real \<Rightarrow> real \<Rightarrow> real) \<Rightarrow> tensor \<Rightarrow> tensor \<Rightarrow> error + tensor" where
  "binop f a b =
     (let r = max (length (dims a)) (length (dims b));
          da = pad_dims r (dims a);
          db = pad_dims r (dims b)
      in case bdims da db of
           None \<Rightarrow> Inl (RuntimeError ''The size of tensor a must match the size of tensor b'')
         | Some ds \<Rightarrow>
             Inr \<lparr>dims = ds,
                  elems = map2 f (expand da ds (elems a)) (expand db ds (elems b))\<rparr>)"

definition tadd :: "tensor \<Rightarrow> tensor \<Rightarrow> error + tensor" where
  "tadd a b = binop (+) a b"

definition tsub :: "tensor \<Rightarrow> tensor \<Rightarrow> error + tensor" where
  "tsub a b = binop (-) a b"

definition tmul :: "tensor \<Rightarrow> tensor \<Rightarrow> error + tensor" where
  "tmul a b = binop (*) a b"

text \<open>
  \<open>t.sum(dim=1)\<close>: for each index of the leading dimension and each position of the
  trailing dimensions, the sum along dimension 1.
\<close>

definition sum_dim1 :: "tensor \<Rightarrow> error + tensor" where
  "sum_dim1 t =
     (case dims t of
        b # d # rest \<Rightarrow>
          Inr \<lparr>dims = b # rest,
               elems = concat (map (\<lambda>row. map (\<lambda>k. \<Sum>j\<leftarrow>[0..<d]. row ! (j * prod_list rest + k))
                                                 [0..<prod_list rest])
                                  (rows b (d * prod_list rest) (elems t)))\<rparr>
      | _ \<Rightarrow> Inl IndexError)"

definition tdiv :: "tensor \<Rightarrow> tensor \<Rightarrow> error + tensor" where
  "tdiv a b = binop (/) a b"

text \<open>An elementwise function of one tensor (\<open>t.log()\<close>, \<open>t.sigmoid_()\<close>, ELU).\<close>

definition tmap :: "(real \<Rightarrow> real) \<Rightarrow> tensor \<Rightarrow> tensor" where
  "tmap f t = t\<lparr>elems := map f (elems t)\<rparr>"

definition sigmoid :: "real \<Rightarrow> real" where
  "sigmoid v = 1 / (1 + exp (- v))"

definition elu :: "real \<Rightarrow> real" where
  "elu v = (if 0 < v then v else exp v - 1)"

text \<open>
  Slices and concatenation along dimension 1 (the channels): \<open>t[:, :k]\<close>,
  \<open>t[:, k:]\<close> and \<open>torch.cat([a, b], dim=1)\<close>. In row-major order the channels of
  one batch entry are consecutive, each \<open>prod_list rest\<close> entries long.
\<close>

definition slice_to :: "nat \<Rightarrow> tensor \<Rightarrow> error + tensor" where
  "slice_to k t =
     (case dims t of
        b # c # rest \<Rightarrow>
          Inr \<lparr>dims = b # min k c # rest,
               elems = concat (map (take (k * prod_list rest))
                                   (rows b (c * prod_list rest) (elems t)))\<rparr>
      | _ \<Rightarrow> Inl IndexError)"

definition slice_from :: "nat \<Rightarrow> tensor \<Rightarrow> error + tensor" where
  "slice_from k t =
     (case dims t of
        b # c # rest \<Rightarrow>
          Inr \<lparr>dims = b # (c - k) # rest,
               elems = concat (map (drop (k * prod_list rest))
                                   (rows b (c * prod_list rest) (elems t)))\<rparr>
      | _ \<Rightarrow> Inl IndexError)"

definition cat1 :: "tensor \<Rightarrow> tensor \<Rightarrow> error + tensor" where
  "cat1 a b =
     (case (dims a, dims b) of
        (ba # ca # ra, bb # cb # rb) \<Rightarrow>
          if ba = bb \<and> ra = rb then
            Inr \<lparr>dims = ba # (ca + cb) # ra,
                 elems = concat (map2 (@) (rows ba (ca * prod_list ra) (elems a))
                                          (rows ba (cb * prod_list ra) (elems b)))\<rparr>
          else Inl (RuntimeError ''Sizes of tensors must match except in dimension 1'')
      | _ \<Rightarrow> Inl IndexError)"

text \<open>
  \<open>a, b = t.chunk(2, dim=1)\<close>: the chunks have \<open>(c + 1) div 2\<close> channels, the last
  one what is left. A tensor with one channel has a single chunk, and the unpacking
  raises ValueError.
\<close>

definition chunk2 :: "tensor \<Rightarrow> error + (tensor \<times> tensor)" where
  "chunk2 t =
     (case dims t of
        b # c # rest \<Rightarrow>
          if c = 1 then Inl ValueError
          else bindE (slice_to ((c + 1) div 2) t) (\<lambda>x.
               bindE (slice_from ((c + 1) div 2) t) (\<lambda>y. Inr (x, y)))
      | _ \<Rightarrow> Inl IndexError)"

section \<open>The Flow base class (flows/flow.py)\<close>

text \<open>
  Every flow has the \<open>inverse\<close> attribute of the base class (\<open>Flow_base\<close>; the
  records of the subclasses below extend it). Seen through the adapters, a flow object
  is that attribute and the three methods its subclass overrides. The adapters receive the extra positional arguments \<open>*h\<close> as a tuple and
  hand that tuple on as one argument, so the methods take a list of tensors.
  The updates that \<open>init\<close> makes to learned parameters are internal to the
  subclass and are not part of this model.
\<close>

record Flow_base =
  inverse_flag :: bool

record Flow = Flow_base +
  forward :: "tensor \<Rightarrow> tensor list \<Rightarrow> error + (tensor \<times> tensor)"
  backward :: "tensor \<Rightarrow> tensor list \<Rightarrow> error + (tensor \<times> tensor)"
  init :: "tensor \<Rightarrow> tensor list \<Rightarrow> real \<Rightarrow> error + (tensor \<times> tensor)"

definition fwdpass ::
  "Flow \<Rightarrow> tensor \<Rightarrow> tensor list \<Rightarrow> bool \<Rightarrow> real \<Rightarrow> error + (tensor \<times> tensor)" where
  "fwdpass self x h init_flag init_scale =
     bindE
       (if inverse_flag self then
          (if init_flag then
             Inl (RuntimeError ''inverse flow shold be initialized with backward pass'')
           else backward self x h)
        else
          (if init_flag then init self x h init_scale
           else forward self x h))
       (\<lambda>(y, logdet). Inr (y, mul_scalar logdet (- 1.0)))"

definition bwdpass ::
  "Flow \<Rightarrow> tensor \<Rightarrow> tensor list \<Rightarrow> bool \<Rightarrow> real \<Rightarrow> error + (tensor \<times> tensor)" where
  "bwdpass self y h init_flag init_scale =
     bindE
       (if inverse_flag self then
          (if init_flag then init self y h init_scale
           else forward self y h)
        else
          (if init_flag then
             Inl (RuntimeError ''forward flow should be initialzed with forward pass'')
           else backward self y h))
       (\<lambda>(x, logdet). Inr (x, logdet))"

text \<open>The exact negation of a log-determinant, entry by entry.\<close>

definition negated :: "tensor \<Rightarrow> tensor" where
  "negated t = \<lparr>dims = dims t, elems = map uminus (elems t)\<rparr>"

text \<open>A flow used in the closed instances below: the identity with a fixed log-determinant.\<close>

definition const_flow :: "bool \<Rightarrow> tensor \<Rightarrow> Flow" where
  "const_flow iv l =
     \<lparr>inverse_flag = iv,
      forward = (\<lambda>x h. Inr (x, l)),
      backward = (\<lambda>x h. Inr (x, negated l)),
      init = (\<lambda>x h sc. Inr (x, l))\<rparr>"


section \<open>The coupling flow (flows/nice.py)\<close>

text \<open>
  \<open>NICEBlock\<close> is three weight-normalised convolutions with ELU in between and a
  dropout before the last. The convolutions (and their data-dependent \<open>init\<close>) and
  the dropout mask are outside these sources: the block holds them as functions.
\<close>

record NICEBlock =
  nb_conv1 :: "tensor \<Rightarrow> error + tensor"
  nb_conv2 :: "tensor \<Rightarrow> error + tensor"
  nb_conv3 :: "tensor \<Rightarrow> error + tensor"
  nb_conv1_init :: "tensor \<Rightarrow> real \<Rightarrow> error + tensor"
  nb_conv2_init :: "tensor \<Rightarrow> real \<Rightarrow> error + tensor"
  nb_conv3_init :: "tensor \<Rightarrow> real \<Rightarrow> error + tensor"
  nb_dropout :: "tensor \<Rightarrow> tensor"

definition NICEBlock_init :: "NICEBlock \<Rightarrow> tensor \<Rightarrow> tensor option \<Rightarrow> real \<Rightarrow> error + tensor" where
  "NICEBlock_init self x s init_scale =
     bindE (case s of None \<Rightarrow> Inr x | Some s' \<Rightarrow> cat1 x s') (\<lambda>x.
     bindE (nb_conv1_init self x init_scale) (\<lambda>c1.
     let out = tmap elu c1 in
     bindE (nb_conv2_init self out init_scale) (\<lambda>c2.
     let out = tmap elu c2 in
     bindE (nb_conv3_init self (nb_dropout self out) 0.0) (\<lambda>out.
     Inr out))))"

definition NICEBlock_forward :: "NICEBlock \<Rightarrow> tensor \<Rightarrow> tensor option \<Rightarrow> error + tensor" where
  "NICEBlock_forward self x s =
     bindE (case s of None \<Rightarrow> Inr x | Some s' \<Rightarrow> cat1 x s') (\<lambda>x.
     bindE (nb_conv1 self x) (\<lambda>c1.
     let out = tmap elu c1 in
     bindE (nb_conv2 self out) (\<lambda>c2.
     let out = tmap elu c2 in
     bindE (nb_conv3 self (nb_dropout self out)) (\<lambda>out.
     Inr out))))"

record NICE = Flow_base +
  n_in_channels :: nat
  scale_flag :: bool
  z1_channels :: nat
  net :: NICEBlock

text \<open>
  \<open>NICE.__init__\<close>. The block is built by \<open>mk_net\<close> from the channel counts the
  constructor computes. \<open>hidden_channels\<close> and \<open>s_channels\<close> are optional.
\<close>

definition NICE_ctor ::
  "(nat \<Rightarrow> nat \<Rightarrow> nat \<Rightarrow> nat \<Rightarrow> nat \<Rightarrow> real \<Rightarrow> NICEBlock) \<Rightarrow>
   nat \<Rightarrow> nat option \<Rightarrow> nat option \<Rightarrow> bool \<Rightarrow> bool \<Rightarrow> nat \<Rightarrow> real \<Rightarrow> nat \<Rightarrow> error + NICE" where
  "NICE_ctor mk_net in_channels hidden_channels s_channels scale inverse' dilation dropout factor =
     (let hidden_channels =
            (case hidden_channels of None \<Rightarrow> min (8 * in_channels) 512 | Some h \<Rightarrow> h)
      in if factor = 0 then Inl ZeroDivisionError
         else
           let out_channels = in_channels div factor;
               in_channels' = in_channels - out_channels;
               out_channels = (if scale then out_channels * 2 else out_channels);
               s_channels = (case s_channels of None \<Rightarrow> 0 | Some c \<Rightarrow> c)
           in Inr \<lparr>inverse_flag = inverse',
                   n_in_channels = in_channels,
                   scale_flag = scale,
                   z1_channels = in_channels',
                   net = mk_net in_channels' out_channels hidden_channels s_channels dilation dropout\<rparr>)"

definition calc_mu_and_scale ::
  "NICE \<Rightarrow> tensor \<Rightarrow> tensor option \<Rightarrow> error + (tensor \<times> tensor option)" where
  "calc_mu_and_scale self z1 s =
     bindE (NICEBlock_forward (net self) z1 s) (\<lambda>mu.
     if scale_flag self then
       bindE (chunk2 mu) (\<lambda>(mu, log_scale).
       Inr (mu, Some (tmap sigmoid (add_scalar log_scale 2))))
     else Inr (mu, None))"

definition init_net ::
  "NICE \<Rightarrow> tensor \<Rightarrow> tensor option \<Rightarrow> real \<Rightarrow> error + (tensor \<times> tensor option)" where
  "init_net self z1 s init_scale =
     bindE (NICEBlock_init (net self) z1 s init_scale) (\<lambda>mu.
     if scale_flag self then
       bindE (chunk2 mu) (\<lambda>(mu, log_scale).
       Inr (mu, Some (tmap sigmoid (add_scalar log_scale 2))))
     else Inr (mu, None))"

text \<open>
  The scaling and the log-determinant shared by \<open>forward\<close> and \<open>init\<close>:
  \<open>z2.mul(scale)\<close> and \<open>scale.log().view(z1.size(0), -1).sum(dim=1)\<close>, or no scaling
  and \<open>z1.new_zeros(z1.size(0))\<close>. With \<open>self.scale\<close> set the scale is never
  \<open>None\<close>; multiplying by \<open>None\<close> would be a TypeError.
\<close>

definition logdet_of_scale :: "tensor \<Rightarrow> tensor \<Rightarrow> error + tensor" where
  "logdet_of_scale scale z1 =
     bindE (size_at z1 0) (\<lambda>b.
     bindE (view_infer (tmap ln scale) b) (\<lambda>v.
     sum_dim1 v))"

definition NICE_forward :: "NICE \<Rightarrow> tensor \<Rightarrow> tensor option \<Rightarrow> error + (tensor \<times> tensor)" where
  "NICE_forward self input s =
     bindE (slice_to (z1_channels self) input) (\<lambda>z1.
     bindE (slice_from (z1_channels self) input) (\<lambda>z2.
     bindE (calc_mu_and_scale self z1 s) (\<lambda>(mu, scale).
     bindE (if scale_flag self then
              (case scale of
                 None \<Rightarrow> Inl TypeError
               | Some scale \<Rightarrow>
                   bindE (tmul z2 scale) (\<lambda>z2.
                   bindE (logdet_of_scale scale z1) (\<lambda>logdet. Inr (z2, logdet))))
            else bindE (size_at z1 0) (\<lambda>b. Inr (z2, new_zeros [b]))) (\<lambda>(z2, logdet).
     bindE (tadd z2 mu) (\<lambda>z2.
     bindE (cat1 z1 z2) (\<lambda>out.
     Inr (out, logdet)))))))"

definition NICE_backward :: "NICE \<Rightarrow> tensor \<Rightarrow> tensor option \<Rightarrow> error + (tensor \<times> tensor)" where
  "NICE_backward self input s =
     bindE (slice_to (z1_channels self) input) (\<lambda>z1.
     bindE (slice_from (z1_channels self) input) (\<lambda>z2.
     bindE (calc_mu_and_scale self z1 s) (\<lambda>(mu, scale).
     bindE (tsub z2 mu) (\<lambda>z2.
     bindE (if scale_flag self then
              (case scale of
                 None \<Rightarrow> Inl TypeError
               | Some scale \<Rightarrow>
                   bindE (tdiv z2 (add_scalar scale (1 / 10 ^ 12))) (\<lambda>z2.
                   bindE (logdet_of_scale scale z1) (\<lambda>l. Inr (z2, mul_scalar l (- 1.0)))))
            else bindE (size_at z1 0) (\<lambda>b. Inr (z2, new_zeros [b]))) (\<lambda>(z2, logdet).
     bindE (cat1 z1 z2) (\<lambda>out.
     Inr (out, logdet)))))))"

definition NICE_init :: "NICE \<Rightarrow> tensor \<Rightarrow> tensor option \<Rightarrow> real \<Rightarrow> error + (tensor \<times> tensor)" where
  "NICE_init self data s init_scale =
     bindE (slice_to (z1_channels self) data) (\<lambda>z1.
     bindE (slice_from (z1_channels self) data) (\<lambda>z2.
     bindE (init_net self z1 s init_scale) (\<lambda>(mu, scale).
     bindE (if scale_flag self then
              (case scale of
                 None \<Rightarrow> Inl TypeError
               | Some scale \<Rightarrow>
                   bindE (tmul z2 scale) (\<lambda>z2.
                   bindE (logdet_of_scale scale z1) (\<lambda>logdet. Inr (z2, logdet))))
            else bindE (size_at z1 0) (\<lambda>b. Inr (z2, new_zeros [b]))) (\<lambda>(z2, logdet).
     bindE (tadd z2 mu) (\<lambda>z2.
     bindE (cat1 z1 z2) (\<lambda>out.
     Inr (out, logdet)))))))"

section \<open>The generative model wrappers (models/flow_gen.py)\<close>

text \<open>
  The wrapper holds its flow; the variational subclass adds the dequantization flow.
  Only the single-device case is modelled (with \<open>ngpu > 1\<close> the flows are wrapped
  for data parallelism by a module outside these sources).
\<close>

record FlowGenModel =
  flow :: Flow

record VDeQuantFlowGenModel = FlowGenModel +
  dequant_flow :: Flow


definition decode :: "'a FlowGenModel_scheme \<Rightarrow> tensor \<Rightarrow> error + (tensor \<times> tensor)" where
  "decode self z = bindE (fwdpass (flow self) z [] False 1.0) (\<lambda>(x, logdet). Inr (x, logdet))"


text \<open>
  \<open>VDeQuantFlowGenModel.dequantize\<close>. The draw of \<open>torch.randn\<close> is an input of
  the model: \<open>randn ds\<close> is the tensor drawn for the size \<open>ds\<close>.
\<close>

definition dequantize ::
  "(nat list \<Rightarrow> tensor) \<Rightarrow> VDeQuantFlowGenModel \<Rightarrow> tensor \<Rightarrow> nat \<Rightarrow> error + (tensor \<times> tensor)" where
  "dequantize randn self x nsamples =
     bindE (size_at x 0) (\<lambda>batch.
     let epsilon = randn ((batch * nsamples) # tl (dims x)) in
     bindE (if nsamples > 1 then
              bindE (unsqueeze1 x) (\<lambda>x1.
              bindE (tadd x1 (new_zeros (batch # nsamples # tl (dims x)))) (\<lambda>x2.
              view x2 (dims epsilon)))
            else Inr x) (\<lambda>x.
     bindE (fwdpass (dequant_flow self) epsilon [x] False 1.0) (\<lambda>(u, logdet).
     bindE (size_at epsilon 0) (\<lambda>e0.
     bindE (view_infer epsilon e0) (\<lambda>epsilon.
     bindE (tmul epsilon epsilon) (\<lambda>ee.
     bindE (sum_dim1 ee) (\<lambda>esum.
     bindE (size_at epsilon 1) (\<lambda>e1.
     let log_posteriors = add_scalar esum (ln (pi * 2) * real e1) in
     bindE (tsub (mul_scalar log_posteriors (- 0.5)) logdet) (\<lambda>log_posteriors.
     bindE (view u (batch # nsamples # tl (dims x))) (\<lambda>u'.
     bindE (view log_posteriors [batch, nsamples]) (\<lambda>lp.
     Inr (u', lp))))))))))))"

text \<open>
  The vocabulary of the statements: the entries of sample \<open>i\<close> of a batch whose samples
  have \<open>d\<close> entries each, the squared Euclidean norm, and the batch in which every
  sample of \<open>x\<close> stands \<open>n\<close> times in a row (sample \<open>k\<close> of the result is sample
  \<open>k div n\<close> of \<open>x\<close>).
\<close>

definition sample :: "nat \<Rightarrow> tensor \<Rightarrow> nat \<Rightarrow> real list" where
  "sample d t i = take d (drop (i * d) (elems t))"

definition sqnorm :: "real list \<Rightarrow> real" where
  "sqnorm xs = (\<Sum>v\<leftarrow>xs. v * v)"

definition repeat_samples :: "nat \<Rightarrow> tensor \<Rightarrow> tensor" where
  "repeat_samples n x =
     \<lparr>dims = (hd (dims x) * n) # tl (dims x),
      elems = concat (map (\<lambda>k. sample (prod_list (tl (dims x))) x (k div n))
                          [0..<hd (dims x) * n])\<rparr>"

text \<open>The draw used in the closed instances: the entries 0, 1, 2, ... in row-major order.\<close>

definition ramp :: "nat list \<Rightarrow> tensor" where
  "ramp ds = \<lparr>dims = ds, elems = map real [0..<prod_list ds]\<rparr>"

text \<open>
  The convolutions of the block are outside these sources; what the statements below
  ask of the last one is that the tensor it returns is well formed.
\<close>

definition returns_wf :: "NICEBlock \<Rightarrow> bool" where
  "returns_wf nb =
     ((\<forall>x t. nb_conv3 nb x = Inr t \<longrightarrow> wf t) \<and>
      (\<forall>x sc t. nb_conv3_init nb x sc = Inr t \<longrightarrow> wf t))"

text \<open>
  A coupling used in the closed instances below: its block returns its input as the shift
  \<open>mu\<close> and the constant \<open>ls\<close> as the log-scale, so that the scale is
  \<open>sigmoid (ls + 2)\<close>. It is what \<open>NICE_ctor\<close> builds for two input channels.
\<close>

definition coupling_net :: "real \<Rightarrow> NICEBlock" where
  "coupling_net ls =
     \<lparr>nb_conv1 = Inr, nb_conv2 = Inr,
      nb_conv3 = (\<lambda>x. if wf x then cat1 x (tmap (\<lambda>v. ls) x)
                     else Inl (RuntimeError ''ill-formed input'')),
      nb_conv1_init = (\<lambda>x sc. Inr x), nb_conv2_init = (\<lambda>x sc. Inr x),
      nb_conv3_init = (\<lambda>x sc. if wf x then cat1 x (tmap (\<lambda>v. ls) x)
                             else Inl (RuntimeError ''ill-formed input'')),
      nb_dropout = (\<lambda>x. x)\<rparr>"

definition coupling_example :: "real \<Rightarrow> NICE" where
  "coupling_example ls =
     \<lparr>inverse_flag = False, n_in_channels = 2, scale_flag = True, z1_channels = 1,
      net = coupling_net ls\<rparr>"

section \<open>The MaCow flows (flows/macow.py)\<close>

subsection \<open>The collaborators outside the sources\<close>

text \<open>
  \<open>ActNorm2dFlow\<close>, \<open>MaskedConvFlow\<close>, \<open>GlowStep\<close> and \<open>Prior\<close> are flows defined
  in modules that are not part of these sources. An object of one of them is the
  arguments of its constructor, together with its place in the module tree (the name
  under which its parameters are stored), which tells two objects built from equal
  arguments apart.
\<close>

datatype tag = Attr string | Idx nat

type_synonym path = "tag list"

datatype elem_flow =
    ActNorm2dFlow path int bool
  | MaskedConvFlow path int "int \<times> int" int string bool bool
  | GlowStep path int int int bool bool string "int option" int bool real
  | Prior path int int int bool bool int

text \<open>
  What these flows compute, their attribute \<open>z1_channels\<close> (of a \<open>Prior\<close>), and the
  four tensor utilities of \<open>macow.utils\<close> are parameters of the model.
\<close>

record externals =
  e_forward :: "elem_flow \<Rightarrow> tensor \<Rightarrow> tensor option \<Rightarrow> error + (tensor \<times> tensor)"
  e_backward :: "elem_flow \<Rightarrow> tensor \<Rightarrow> tensor option \<Rightarrow> error + (tensor \<times> tensor)"
  e_init :: "elem_flow \<Rightarrow> tensor \<Rightarrow> tensor option \<Rightarrow> real \<Rightarrow> error + (tensor \<times> tensor)"
  e_z1_channels :: "elem_flow \<Rightarrow> int"
  squeeze2d :: "tensor \<Rightarrow> int \<Rightarrow> error + tensor"
  unsqueeze2d :: "tensor \<Rightarrow> int \<Rightarrow> error + tensor"
  split2d :: "tensor \<Rightarrow> int \<Rightarrow> error + (tensor \<times> tensor)"
  unsplit2d :: "tensor list \<Rightarrow> error + tensor"

subsection \<open>Python lists and loops\<close>

text \<open>\<open>xs[i]\<close> for a constant index \<open>i \<ge> 0\<close>, and \<open>xs.pop()\<close>.\<close>

definition index_at :: "'a list \<Rightarrow> nat \<Rightarrow> error + 'a" where
  "index_at xs i = (if i < length xs then Inr (xs ! i) else Inl IndexError)"

definition pop :: "'a list \<Rightarrow> error + ('a \<times> 'a list)" where
  "pop xs = (if xs = [] then Inl IndexError else Inr (last xs, butlast xs))"

text \<open>A list comprehension whose element expression may raise.\<close>

fun mapE :: "('a \<Rightarrow> error + 'b) \<Rightarrow> 'a list \<Rightarrow> error + 'b list" where
  "mapE f [] = Inr []"
| "mapE f (x # xs) = bindE (f x) (\<lambda>y. bindE (mapE f xs) (\<lambda>ys. Inr (y # ys)))"

text \<open>
  The loop the composite flows share:
  \<^verbatim>\<open>for f in fs: out, logdet = f.op(out, s=s); logdet_accum = logdet_accum + logdet\<close>
\<close>

fun loop_flows ::
  "('f \<Rightarrow> tensor \<Rightarrow> error + (tensor \<times> tensor)) \<Rightarrow> 'f list \<Rightarrow> tensor \<times> tensor \<Rightarrow>
   error + (tensor \<times> tensor)" where
  "loop_flows op [] (out, logdet_accum) = Inr (out, logdet_accum)"
| "loop_flows op (f # fs) (out, logdet_accum) =
     bindE (op f out) (\<lambda>(out, logdet).
     bindE (tadd logdet_accum logdet) (\<lambda>logdet_accum.
     loop_flows op fs (out, logdet_accum)))"

subsection \<open>MaCowUnit\<close>

record MaCowUnit = Flow_base +
  actnorm1 :: elem_flow
  actnorm2 :: elem_flow
  conv1 :: elem_flow
  conv2 :: elem_flow
  conv3 :: elem_flow
  conv4 :: elem_flow

definition MaCowUnit_ctor ::
  "path \<Rightarrow> int \<Rightarrow> int list \<Rightarrow> int \<Rightarrow> bool \<Rightarrow> bool \<Rightarrow> error + MaCowUnit" where
  "MaCowUnit_ctor p in_channels kernel_size s_channels scale inverse' =
     bindE (index_at kernel_size 0) (\<lambda>k0.
     bindE (index_at kernel_size 1) (\<lambda>k1.
     Inr \<lparr>inverse_flag = inverse',
          actnorm1 = ActNorm2dFlow (p @ [Attr ''actnorm1'']) in_channels inverse',
          actnorm2 = ActNorm2dFlow (p @ [Attr ''actnorm2'']) in_channels inverse',
          conv1 = MaskedConvFlow (p @ [Attr ''conv1'']) in_channels (k0, k1) s_channels ''A'' scale inverse',
          conv2 = MaskedConvFlow (p @ [Attr ''conv2'']) in_channels (k0, k1) s_channels ''B'' scale inverse',
          conv3 = MaskedConvFlow (p @ [Attr ''conv3'']) in_channels (k1, k0) s_channels ''C'' scale inverse',
          conv4 = MaskedConvFlow (p @ [Attr ''conv4'']) in_channels (k1, k0) s_channels ''D'' scale inverse'\<rparr>))"

definition MaCowUnit_forward ::
  "externals \<Rightarrow> MaCowUnit \<Rightarrow> tensor \<Rightarrow> tensor option \<Rightarrow> error + (tensor \<times> tensor)" where
  "MaCowUnit_forward E self input s =
     bindE (e_forward E (actnorm1 self) input None) (\<lambda>(out, logdet_accum).
     bindE (e_forward E (conv1 self) out s) (\<lambda>(out, logdet).
     bindE (tadd logdet_accum logdet) (\<lambda>logdet_accum.
     bindE (e_forward E (conv2 self) out s) (\<lambda>(out, logdet).
     bindE (tadd logdet_accum logdet) (\<lambda>logdet_accum.
     bindE (e_forward E (actnorm2 self) out None) (\<lambda>(out, logdet).
     bindE (tadd logdet_accum logdet) (\<lambda>logdet_accum.
     bindE (e_forward E (conv3 self) out s) (\<lambda>(out, logdet).
     bindE (tadd logdet_accum logdet) (\<lambda>logdet_accum.
     bindE (e_forward E (conv4 self) out s) (\<lambda>(out, logdet).
     bindE (tadd logdet_accum logdet) (\<lambda>logdet_accum.
     Inr (out, logdet_accum))))))))))))"

definition MaCowUnit_backward ::
  "externals \<Rightarrow> MaCowUnit \<Rightarrow> tensor \<Rightarrow> tensor option \<Rightarrow> error + (tensor \<times> tensor)" where
  "MaCowUnit_backward E self input s =
     bindE (e_backward E (conv4 self) input s) (\<lambda>(out, logdet_accum).
     bindE (e_backward E (conv3 self) out s) (\<lambda>(out, logdet).
     bindE (tadd logdet_accum logdet) (\<lambda>logdet_accum.
     bindE (e_backward E (actnorm2 self) out None) (\<lambda>(out, logdet).
     bindE (tadd logdet_accum logdet) (\<lambda>logdet_accum.
     bindE (e_backward E (conv2 self) out s) (\<lambda>(out, logdet).
     bindE (tadd logdet_accum logdet) (\<lambda>logdet_accum.
     bindE (e_backward E (conv1 self) out s) (\<lambda>(out, logdet).
     bindE (tadd logdet_accum logdet) (\<lambda>logdet_accum.
     bindE (e_backward E (actnorm1 self) out None) (\<lambda>(out, logdet).
     bindE (tadd logdet_accum logdet) (\<lambda>logdet_accum.
     Inr (out, logdet_accum))))))))))))"

definition MaCowUnit_init ::
  "externals \<Rightarrow> MaCowUnit \<Rightarrow> tensor \<Rightarrow> tensor option \<Rightarrow> real \<Rightarrow> error + (tensor \<times> tensor)" where
  "MaCowUnit_init E self data s init_scale =
     bindE (e_init E (actnorm1 self) data None init_scale) (\<lambda>(out, logdet_accum).
     bindE (e_init E (conv1 self) out s init_scale) (\<lambda>(out, logdet).
     bindE (tadd logdet_accum logdet) (\<lambda>logdet_accum.
     bindE (e_init E (conv2 self) out s init_scale) (\<lambda>(out, logdet).
     bindE (tadd logdet_accum logdet) (\<lambda>logdet_accum.
     bindE (e_init E (actnorm2 self) out None init_scale) (\<lambda>(out, logdet).
     bindE (tadd logdet_accum logdet) (\<lambda>logdet_accum.
     bindE (e_init E (conv3 self) out s init_scale) (\<lambda>(out, logdet).
     bindE (tadd logdet_accum logdet) (\<lambda>logdet_accum.
     bindE (e_init E (conv4 self) out s init_scale) (\<lambda>(out, logdet).
     bindE (tadd logdet_accum logdet) (\<lambda>logdet_accum.
     Inr (out, logdet_accum))))))))))))"

subsection \<open>MaCowStep\<close>

record MaCowStep = Flow_base +
  units :: "MaCowUnit list"
  glow_step :: elem_flow

definition MaCowStep_ctor ::
  "path \<Rightarrow> int \<Rightarrow> int list \<Rightarrow> int \<Rightarrow> int \<Rightarrow> bool \<Rightarrow> bool \<Rightarrow> string \<Rightarrow> int option \<Rightarrow> int \<Rightarrow> bool \<Rightarrow> real \<Rightarrow>
   error + MaCowStep" where
  "MaCowStep_ctor p in_channels kernel_size hidden_channels s_channels scale inverse'
       coupling_type slice heads pos_enc dropout =
     (let num_units = 2 in
      bindE (mapE (\<lambda>i. MaCowUnit_ctor (p @ [Attr ''units'', Idx i]) in_channels kernel_size
                           s_channels scale inverse') [0..<num_units]) (\<lambda>units.
      Inr \<lparr>inverse_flag = inverse',
           units = units,
           glow_step = GlowStep (p @ [Attr ''glow_step'']) in_channels hidden_channels s_channels
                         scale inverse' coupling_type slice heads pos_enc dropout\<rparr>))"

definition MaCowStep_forward ::
  "externals \<Rightarrow> MaCowStep \<Rightarrow> tensor \<Rightarrow> tensor option \<Rightarrow> error + (tensor \<times> tensor)" where
  "MaCowStep_forward E self input s =
     bindE (size_at input 0) (\<lambda>b.
     bindE (loop_flows (\<lambda>unit out. MaCowUnit_forward E unit out s) (units self)
              (input, new_zeros [b])) (\<lambda>(out, logdet_accum).
     bindE (e_forward E (glow_step self) out s) (\<lambda>(out, logdet).
     bindE (tadd logdet_accum logdet) (\<lambda>logdet_accum.
     Inr (out, logdet_accum)))))"

definition MaCowStep_backward ::
  "externals \<Rightarrow> MaCowStep \<Rightarrow> tensor \<Rightarrow> tensor option \<Rightarrow> error + (tensor \<times> tensor)" where
  "MaCowStep_backward E self input s =
     bindE (e_backward E (glow_step self) input s) (\<lambda>(out, logdet_accum).
     loop_flows (\<lambda>unit out. MaCowUnit_backward E unit out s) (rev (units self))
       (out, logdet_accum))"

definition MaCowStep_init ::
  "externals \<Rightarrow> MaCowStep \<Rightarrow> tensor \<Rightarrow> tensor option \<Rightarrow> real \<Rightarrow> error + (tensor \<times> tensor)" where
  "MaCowStep_init E self data s init_scale =
     bindE (size_at data 0) (\<lambda>b.
     bindE (loop_flows (\<lambda>unit out. MaCowUnit_init E unit out s init_scale) (units self)
              (data, new_zeros [b])) (\<lambda>(out, logdet_accum).
     bindE (e_init E (glow_step self) out s init_scale) (\<lambda>(out, logdet).
     bindE (tadd logdet_accum logdet) (\<lambda>logdet_accum.
     Inr (out, logdet_accum)))))"

subsection \<open>MaCowBottomBlock and MaCowTopBlock\<close>

text \<open>
  An entry of \<open>num_steps\<close> is a number for a bottom or top level and a list of numbers
  for an internal level; \<open>range\<close> of a list and \<open>len\<close> of a number are TypeErrors.
\<close>

datatype nsteps = Count int | Counts "int list"

definition range_of :: "nsteps \<Rightarrow> error + nat list" where
  "range_of n = (case n of Count k \<Rightarrow> Inr [0..<nat k] | Counts ks \<Rightarrow> Inl TypeError)"

definition list_of :: "nsteps \<Rightarrow> error + int list" where
  "list_of n = (case n of Count k \<Rightarrow> Inl TypeError | Counts ks \<Rightarrow> Inr ks)"

record MaCowBottomBlock = Flow_base +
  steps :: "MaCowStep list"

definition MaCowBottomBlock_ctor ::
  "path \<Rightarrow> nsteps \<Rightarrow> int \<Rightarrow> int list \<Rightarrow> int \<Rightarrow> int \<Rightarrow> bool \<Rightarrow> bool \<Rightarrow> error + MaCowBottomBlock" where
  "MaCowBottomBlock_ctor p num_steps in_channels kernel_size hidden_channels s_channels scale inverse' =
     bindE (range_of num_steps) (\<lambda>is.
     bindE (mapE (\<lambda>i. MaCowStep_ctor (p @ [Attr ''steps'', Idx i]) in_channels kernel_size
                          hidden_channels s_channels scale inverse' ''conv'' None 1 True 0.0) is) (\<lambda>steps.
     Inr \<lparr>inverse_flag = inverse', steps = steps\<rparr>))"

definition MaCowBottomBlock_forward ::
  "externals \<Rightarrow> MaCowBottomBlock \<Rightarrow> tensor \<Rightarrow> tensor option \<Rightarrow> error + (tensor \<times> tensor)" where
  "MaCowBottomBlock_forward E self input s =
     bindE (size_at input 0) (\<lambda>b.
     loop_flows (\<lambda>step out. MaCowStep_forward E step out s) (steps self) (input, new_zeros [b]))"

definition MaCowBottomBlock_backward ::
  "externals \<Rightarrow> MaCowBottomBlock \<Rightarrow> tensor \<Rightarrow> tensor option \<Rightarrow> error + (tensor \<times> tensor)" where
  "MaCowBottomBlock_backward E self input s =
     bindE (size_at input 0) (\<lambda>b.
     loop_flows (\<lambda>step out. MaCowStep_backward E step out s) (rev (steps self))
       (input, new_zeros [b]))"

definition MaCowBottomBlock_init ::
  "externals \<Rightarrow> MaCowBottomBlock \<Rightarrow> tensor \<Rightarrow> tensor option \<Rightarrow> real \<Rightarrow> error + (tensor \<times> tensor)" where
  "MaCowBottomBlock_init E self data s init_scale =
     bindE (size_at data 0) (\<lambda>b.
     loop_flows (\<lambda>step out. MaCowStep_init E step out s init_scale) (steps self)
       (data, new_zeros [b]))"

record MaCowTopBlock = Flow_base +
  steps :: "MaCowStep list"

definition MaCowTopBlock_ctor ::
  "path \<Rightarrow> nsteps \<Rightarrow> int \<Rightarrow> int list \<Rightarrow> int \<Rightarrow> int \<Rightarrow> bool \<Rightarrow> bool \<Rightarrow> string \<Rightarrow> int option \<Rightarrow> int \<Rightarrow> bool \<Rightarrow> real \<Rightarrow>
   error + MaCowTopBlock" where
  "MaCowTopBlock_ctor p num_steps in_channels kernel_size hidden_channels s_channels scale inverse'
       coupling_type slice heads pos_enc dropout =
     bindE (range_of num_steps) (\<lambda>is.
     bindE (mapE (\<lambda>i. MaCowStep_ctor (p @ [Attr ''steps'', Idx i]) in_channels kernel_size
                          hidden_channels s_channels scale inverse' coupling_type slice heads
                          pos_enc dropout) is) (\<lambda>steps.
     Inr \<lparr>inverse_flag = inverse', steps = steps\<rparr>))"

definition MaCowTopBlock_forward ::
  "externals \<Rightarrow> MaCowTopBlock \<Rightarrow> tensor \<Rightarrow> tensor option \<Rightarrow> error + (tensor \<times> tensor)" where
  "MaCowTopBlock_forward E self input s =
     bindE (size_at input 0) (\<lambda>b.
     loop_flows (\<lambda>step out. MaCowStep_forward E step out s) (steps self) (input, new_zeros [b]))"

definition MaCowTopBlock_backward ::
  "externals \<Rightarrow> MaCowTopBlock \<Rightarrow> tensor \<Rightarrow> tensor option \<Rightarrow> error + (tensor \<times> tensor)" where
  "MaCowTopBlock_backward E self input s =
     bindE (size_at input 0) (\<lambda>b.
     loop_flows (\<lambda>step out. MaCowStep_backward E step out s) (rev (steps self))
       (input, new_zeros [b]))"

definition MaCowTopBlock_init ::
  "externals \<Rightarrow> MaCowTopBlock \<Rightarrow> tensor \<Rightarrow> tensor option \<Rightarrow> real \<Rightarrow> error + (tensor \<times> tensor)" where
  "MaCowTopBlock_init E self data s init_scale =
     bindE (size_at data 0) (\<lambda>b.
     loop_flows (\<lambda>step out. MaCowStep_init E step out s init_scale) (steps self)
       (data, new_zeros [b]))"

subsection \<open>MaCowInternalBlock\<close>

record MaCowInternalBlock = Flow_base +
  layers :: "MaCowStep list list"
  priors :: "elem_flow list"
  z1_channels :: int

text \<open>
  The loop of the constructor over \<open>num_steps\<close>: \<open>j\<close> counts the layers built so far,
  \<open>in_channels\<close> and \<open>factor\<close> are the loop's variables. It returns the layers, the
  priors and the last \<open>in_channels\<close>.
\<close>

fun internal_layers ::
  "externals \<Rightarrow> path \<Rightarrow> int list \<Rightarrow> int \<Rightarrow> int \<Rightarrow> bool \<Rightarrow> bool \<Rightarrow> bool \<Rightarrow> string \<Rightarrow> int option \<Rightarrow> int \<Rightarrow> bool \<Rightarrow>
   real \<Rightarrow> int \<Rightarrow> nat \<Rightarrow> int list \<Rightarrow> int \<times> int \<Rightarrow>
   error + (MaCowStep list list \<times> elem_flow list \<times> int)" where
  "internal_layers E p kernel_size hidden_channels s_channels scale prior_scale inverse'
       coupling_type slice heads pos_enc dropout channel_step j [] (in_channels, factor) =
     Inr ([], [], in_channels)"
| "internal_layers E p kernel_size hidden_channels s_channels scale prior_scale inverse'
       coupling_type slice heads pos_enc dropout channel_step j (num_step # rest) (in_channels, factor) =
     bindE (mapE (\<lambda>i. MaCowStep_ctor (p @ [Attr ''layers'', Idx j, Idx i]) in_channels kernel_size
                          hidden_channels s_channels scale inverse' coupling_type slice heads
                          pos_enc dropout) [0..<nat num_step]) (\<lambda>layer.
     let prior = Prior (p @ [Attr ''priors'', Idx j]) in_channels hidden_channels s_channels
                   prior_scale inverse' factor;
         in_channels = in_channels - channel_step
     in if in_channels \<noteq> e_z1_channels E prior then Inl (AssertionError '''')
        else
          bindE (internal_layers E p kernel_size hidden_channels s_channels scale prior_scale
                   inverse' coupling_type slice heads pos_enc dropout channel_step (Suc j) rest
                   (in_channels, factor - 1)) (\<lambda>(layers, priors, z1).
          Inr (layer # layers, prior # priors, z1)))"

definition MaCowInternalBlock_ctor ::
  "externals \<Rightarrow> path \<Rightarrow> nsteps \<Rightarrow> int \<Rightarrow> int list \<Rightarrow> int \<Rightarrow> int \<Rightarrow> int \<Rightarrow> bool \<Rightarrow> bool \<Rightarrow> bool \<Rightarrow> string \<Rightarrow>
   int option \<Rightarrow> int \<Rightarrow> bool \<Rightarrow> real \<Rightarrow> error + MaCowInternalBlock" where
  "MaCowInternalBlock_ctor E p num_steps in_channels kernel_size hidden_channels s_channels
       factor scale prior_scale inverse' coupling_type slice heads pos_enc dropout =
     bindE (list_of num_steps) (\<lambda>num_steps.
     let num_layers = int (length num_steps) in
     if \<not> num_layers < factor then Inl (AssertionError '''')
     else
       let channel_step = in_channels div factor in
       bindE (internal_layers E p kernel_size hidden_channels s_channels scale prior_scale
                inverse' coupling_type slice heads pos_enc dropout channel_step 0 num_steps
                (in_channels, factor)) (\<lambda>(layers, priors, in_channels).
       if length layers \<noteq> length priors then Inl (AssertionError '''')
       else Inr \<lparr>inverse_flag = inverse', layers = layers, priors = priors,
                 z1_channels = in_channels\<rparr>))"

text \<open>
  The loop of \<open>forward\<close> and of \<open>init\<close> over \<open>zip(self.layers, self.priors)\<close>; the
  two differ in the operation they run on a step and on a prior. \<open>outputs\<close> is the
  Python list, in its order: \<open>append\<close> adds at the end.
\<close>

fun internal_down ::
  "externals \<Rightarrow> (MaCowStep \<Rightarrow> tensor \<Rightarrow> error + (tensor \<times> tensor)) \<Rightarrow>
   (elem_flow \<Rightarrow> tensor \<Rightarrow> error + (tensor \<times> tensor)) \<Rightarrow>
   (MaCowStep list \<times> elem_flow) list \<Rightarrow> tensor \<times> tensor \<times> tensor list \<Rightarrow>
   error + (tensor \<times> tensor \<times> tensor list)" where
  "internal_down E step_op prior_op [] (out, logdet_accum, outputs) =
     Inr (out, logdet_accum, outputs)"
| "internal_down E step_op prior_op ((layer, prior) # rest) (out, logdet_accum, outputs) =
     bindE (loop_flows step_op layer (out, logdet_accum)) (\<lambda>(out, logdet_accum).
     bindE (prior_op prior out) (\<lambda>(out, logdet).
     bindE (tadd logdet_accum logdet) (\<lambda>logdet_accum.
     bindE (split2d E out (e_z1_channels E prior)) (\<lambda>(out1, out2).
     internal_down E step_op prior_op rest (out1, logdet_accum, outputs @ [out2])))))"

text \<open>
  \<open>forward\<close> up to its return, with the list \<open>outputs\<close> as it is then (after the
  last \<open>append\<close> and the \<open>reverse\<close>); \<open>forward\<close> returns the first two components.
\<close>

definition MaCowInternalBlock_forward_run ::
  "externals \<Rightarrow> MaCowInternalBlock \<Rightarrow> tensor \<Rightarrow> tensor option \<Rightarrow>
   error + (tensor \<times> tensor \<times> tensor list)" where
  "MaCowInternalBlock_forward_run E self input s =
     bindE (size_at input 0) (\<lambda>b.
     bindE (internal_down E (\<lambda>step out. MaCowStep_forward E step out s)
              (\<lambda>prior out. e_forward E prior out s)
              (zip (layers self) (priors self)) (input, new_zeros [b], [])) (\<lambda>(out, logdet_accum, outputs).
     let outputs = rev (outputs @ [out]) in
     bindE (unsplit2d E outputs) (\<lambda>out.
     Inr (out, logdet_accum, outputs))))"

definition MaCowInternalBlock_forward ::
  "externals \<Rightarrow> MaCowInternalBlock \<Rightarrow> tensor \<Rightarrow> tensor option \<Rightarrow> error + (tensor \<times> tensor)" where
  "MaCowInternalBlock_forward E self input s =
     bindE (MaCowInternalBlock_forward_run E self input s) (\<lambda>(out, logdet_accum, outputs).
     Inr (out, logdet_accum))"

definition MaCowInternalBlock_init_run ::
  "externals \<Rightarrow> MaCowInternalBlock \<Rightarrow> tensor \<Rightarrow> tensor option \<Rightarrow> real \<Rightarrow>
   error + (tensor \<times> tensor \<times> tensor list)" where
  "MaCowInternalBlock_init_run E self data s init_scale =
     bindE (size_at data 0) (\<lambda>b.
     bindE (internal_down E (\<lambda>step out. MaCowStep_init E step out s init_scale)
              (\<lambda>prior out. e_init E prior out s init_scale)
              (zip (layers self) (priors self)) (data, new_zeros [b], [])) (\<lambda>(out, logdet_accum, outputs).
     let outputs = rev (outputs @ [out]) in
     bindE (unsplit2d E outputs) (\<lambda>out.
     Inr (out, logdet_accum, outputs))))"

definition MaCowInternalBlock_init ::
  "externals \<Rightarrow> MaCowInternalBlock \<Rightarrow> tensor \<Rightarrow> tensor option \<Rightarrow> real \<Rightarrow> error + (tensor \<times> tensor)" where
  "MaCowInternalBlock_init E self data s init_scale =
     bindE (MaCowInternalBlock_init_run E self data s init_scale) (\<lambda>(out, logdet_accum, outputs).
     Inr (out, logdet_accum))"

text \<open>The two loops of \<open>backward\<close>: the splits, then the reconstruction.\<close>

fun internal_splits ::
  "externals \<Rightarrow> elem_flow list \<Rightarrow> tensor \<times> tensor list \<Rightarrow> error + (tensor \<times> tensor list)" where
  "internal_splits E [] (out, outputs) = Inr (out, outputs)"
| "internal_splits E (prior # rest) (out, outputs) =
     bindE (split2d E out (e_z1_channels E prior)) (\<lambda>(out1, out2).
     internal_splits E rest (out1, outputs @ [out2]))"

fun internal_up ::
  "externals \<Rightarrow> tensor option \<Rightarrow> (MaCowStep list \<times> elem_flow) list \<Rightarrow> tensor \<times> tensor \<times> tensor list \<Rightarrow>
   error + (tensor \<times> tensor \<times> tensor list)" where
  "internal_up E s [] (out, logdet_accum, outputs) = Inr (out, logdet_accum, outputs)"
| "internal_up E s ((layer, prior) # rest) (out, logdet_accum, outputs) =
     bindE (pop outputs) (\<lambda>(out2, outputs).
     bindE (unsplit2d E [out, out2]) (\<lambda>out.
     bindE (e_backward E prior out s) (\<lambda>(out, logdet).
     bindE (tadd logdet_accum logdet) (\<lambda>logdet_accum.
     bindE (loop_flows (\<lambda>step out. MaCowStep_backward E step out s) (rev layer)
              (out, logdet_accum)) (\<lambda>(out, logdet_accum).
     internal_up E s rest (out, logdet_accum, outputs))))))"

text \<open>\<open>backward\<close> up to its assertion, with the list \<open>outputs\<close> as it is then.\<close>

definition MaCowInternalBlock_backward_run ::
  "externals \<Rightarrow> MaCowInternalBlock \<Rightarrow> tensor \<Rightarrow> tensor option \<Rightarrow>
   error + (tensor \<times> tensor \<times> tensor list)" where
  "MaCowInternalBlock_backward_run E self input s =
     bindE (internal_splits E (priors self) (input, [])) (\<lambda>(out, outputs).
     bindE (size_at out 0) (\<lambda>b.
     internal_up E s (zip (rev (layers self)) (rev (priors self))) (out, new_zeros [b], outputs)))"

definition MaCowInternalBlock_backward ::
  "externals \<Rightarrow> MaCowInternalBlock \<Rightarrow> tensor \<Rightarrow> tensor option \<Rightarrow> error + (tensor \<times> tensor)" where
  "MaCowInternalBlock_backward E self input s =
     bindE (MaCowInternalBlock_backward_run E self input s) (\<lambda>(out, logdet_accum, outputs).
     if length outputs = 0 then Inr (out, logdet_accum) else Inl (AssertionError ''''))"

subsection \<open>MaCow\<close>

text \<open>\<open>isinstance\<close> on a block is the constructor of this datatype.\<close>

datatype block =
    Bottom MaCowBottomBlock
  | Top MaCowTopBlock
  | Internal MaCowInternalBlock

fun is_Internal :: "block \<Rightarrow> bool" where
  "is_Internal (Internal ib) = True"
| "is_Internal blk = False"

fun is_Top :: "block \<Rightarrow> bool" where
  "is_Top (Top tb) = True"
| "is_Top blk = False"

definition block_forward ::
  "externals \<Rightarrow> block \<Rightarrow> tensor \<Rightarrow> tensor option \<Rightarrow> error + (tensor \<times> tensor)" where
  "block_forward E blk out s =
     (case blk of
        Bottom bb \<Rightarrow> MaCowBottomBlock_forward E bb out s
      | Top tb \<Rightarrow> MaCowTopBlock_forward E tb out s
      | Internal ib \<Rightarrow> MaCowInternalBlock_forward E ib out s)"

definition block_backward ::
  "externals \<Rightarrow> block \<Rightarrow> tensor \<Rightarrow> tensor option \<Rightarrow> error + (tensor \<times> tensor)" where
  "block_backward E blk out s =
     (case blk of
        Bottom bb \<Rightarrow> MaCowBottomBlock_backward E bb out s
      | Top tb \<Rightarrow> MaCowTopBlock_backward E tb out s
      | Internal ib \<Rightarrow> MaCowInternalBlock_backward E ib out s)"

definition block_init ::
  "externals \<Rightarrow> block \<Rightarrow> tensor \<Rightarrow> tensor option \<Rightarrow> real \<Rightarrow> error + (tensor \<times> tensor)" where
  "block_init E blk out s init_scale =
     (case blk of
        Bottom bb \<Rightarrow> MaCowBottomBlock_init E bb out s init_scale
      | Top tb \<Rightarrow> MaCowTopBlock_init E tb out s init_scale
      | Internal ib \<Rightarrow> MaCowInternalBlock_init E ib out s init_scale)"

record MaCow = Flow_base +
  levels :: int
  internals :: int
  blocks :: "block list"

text \<open>
  The loop of the constructor over \<open>range(levels)\<close>, with its variables \<open>in_channels\<close>
  and \<open>s_channels\<close>.
\<close>

fun MaCow_blocks ::
  "externals \<Rightarrow> int \<Rightarrow> nsteps list \<Rightarrow> int list \<Rightarrow> int list \<Rightarrow> int list \<Rightarrow> bool \<Rightarrow> bool \<Rightarrow> bool \<Rightarrow> bool \<Rightarrow>
   string \<Rightarrow> int option list \<Rightarrow> int \<Rightarrow> bool \<Rightarrow> real \<Rightarrow> nat list \<Rightarrow> int \<times> int \<Rightarrow> error + block list" where
  "MaCow_blocks E levels' num_steps kernel_size factors hidden_channels scale prior_scale inverse'
       bottom coupling_type slices heads pos_enc dropout [] (in_channels, s_channels) = Inr []"
| "MaCow_blocks E levels' num_steps kernel_size factors hidden_channels scale prior_scale inverse'
       bottom coupling_type slices heads pos_enc dropout (level # rest) (in_channels, s_channels) =
     bindE (index_at slices level) (\<lambda>slice.
     bindE (index_at hidden_channels level) (\<lambda>h_channels.
     if level = 0 \<and> bottom then
       bindE (index_at num_steps level) (\<lambda>n.
       bindE (MaCowBottomBlock_ctor [Attr ''blocks'', Idx level] n in_channels kernel_size
                h_channels s_channels scale inverse') (\<lambda>macow_block.
       bindE (MaCow_blocks E levels' num_steps kernel_size factors hidden_channels scale
                prior_scale inverse' bottom coupling_type slices heads pos_enc dropout rest
                (in_channels, s_channels)) (\<lambda>bs.
       Inr (Bottom macow_block # bs))))
     else if int level = levels' - 1 then
       let in_channels = in_channels * 4;
           s_channels = s_channels * 4 in
       bindE (index_at num_steps level) (\<lambda>n.
       bindE (MaCowTopBlock_ctor [Attr ''blocks'', Idx level] n in_channels kernel_size
                h_channels s_channels scale inverse' coupling_type slice heads pos_enc
                dropout) (\<lambda>macow_block.
       bindE (MaCow_blocks E levels' num_steps kernel_size factors hidden_channels scale
                prior_scale inverse' bottom coupling_type slices heads pos_enc dropout rest
                (in_channels, s_channels)) (\<lambda>bs.
       Inr (Top macow_block # bs))))
     else
       let in_channels = in_channels * 4;
           s_channels = s_channels * 4 in
       bindE (index_at num_steps level) (\<lambda>n.
       bindE (index_at factors level) (\<lambda>factor.
       bindE (MaCowInternalBlock_ctor E [Attr ''blocks'', Idx level] n in_channels kernel_size
                h_channels s_channels factor scale prior_scale inverse' coupling_type slice
                heads pos_enc dropout) (\<lambda>macow_block.
       let in_channels = z1_channels macow_block in
       bindE (MaCow_blocks E levels' num_steps kernel_size factors hidden_channels scale
                prior_scale inverse' bottom coupling_type slices heads pos_enc dropout rest
                (in_channels, s_channels)) (\<lambda>bs.
       Inr (Internal macow_block # bs)))))))"

definition MaCow_ctor ::
  "externals \<Rightarrow> int \<Rightarrow> nsteps list \<Rightarrow> int \<Rightarrow> int list \<Rightarrow> int list \<Rightarrow> int list \<Rightarrow> int \<Rightarrow> bool \<Rightarrow> bool \<Rightarrow> bool \<Rightarrow>
   bool \<Rightarrow> string \<Rightarrow> int option list option \<Rightarrow> int \<Rightarrow> bool \<Rightarrow> real \<Rightarrow> error + MaCow" where
  "MaCow_ctor E levels' num_steps in_channels kernel_size factors hidden_channels s_channels
       scale prior_scale inverse' bottom coupling_type slices heads pos_enc dropout =
     (if \<not> levels' > 1 then Inl (AssertionError ''MaCow should have at least 2 levels.'')
      else if length kernel_size \<noteq> 2 then
        Inl (AssertionError ''kernel size should contain two numbers'')
      else if levels' \<noteq> int (length num_steps) then Inl (AssertionError '''')
      else
        let factors = (if bottom then [0] @ factors @ [0] else factors @ [0]);
            slices = (case slices of None \<Rightarrow> replicate (nat levels') None | Some sl \<Rightarrow> sl)
        in if levels' \<noteq> int (length factors) then Inl (AssertionError '''')
           else if levels' \<noteq> int (length hidden_channels) then Inl (AssertionError '''')
           else if levels' \<noteq> int (length slices) then Inl (AssertionError '''')
           else
             bindE (MaCow_blocks E levels' num_steps kernel_size factors hidden_channels scale
                      prior_scale inverse' bottom coupling_type slices heads pos_enc dropout
                      [0..<nat levels'] (in_channels, s_channels)) (\<lambda>blocks.
             Inr \<lparr>inverse_flag = inverse',
                  levels = levels',
                  internals = (if bottom then levels' - 2 else levels' - 1),
                  blocks = blocks\<rparr>))"

text \<open>\<open>if s is not None: s = squeeze2d(s, factor=2)\<close>, and the same with \<open>unsqueeze2d\<close>.\<close>

definition squeeze_cond :: "externals \<Rightarrow> tensor option \<Rightarrow> error + tensor option" where
  "squeeze_cond E s =
     (case s of None \<Rightarrow> Inr None
      | Some s' \<Rightarrow> bindE (squeeze2d E s' 2) (\<lambda>s'. Inr (Some s')))"

definition unsqueeze_cond :: "externals \<Rightarrow> tensor option \<Rightarrow> error + tensor option" where
  "unsqueeze_cond E s =
     (case s of None \<Rightarrow> Inr None
      | Some s' \<Rightarrow> bindE (unsqueeze2d E s' 2) (\<lambda>s'. Inr (Some s')))"

text \<open>
  The loop of \<open>forward\<close> and of \<open>init\<close> over the blocks (they differ in the operation
  \<open>block_op\<close> they run on a block), with its variables \<open>out\<close>, \<open>s\<close>,
  \<open>logdet_accum\<close> and the list \<open>outputs\<close>.
\<close>

fun MaCow_down ::
  "externals \<Rightarrow> (block \<Rightarrow> tensor \<Rightarrow> tensor option \<Rightarrow> error + (tensor \<times> tensor)) \<Rightarrow> block list \<Rightarrow>
   tensor \<times> tensor option \<times> tensor \<times> tensor list \<Rightarrow>
   error + (tensor \<times> tensor option \<times> tensor \<times> tensor list)" where
  "MaCow_down E block_op [] (out, s, logdet_accum, outputs) = Inr (out, s, logdet_accum, outputs)"
| "MaCow_down E block_op (blk # rest) (out, s, logdet_accum, outputs) =
     bindE (if is_Internal blk \<or> is_Top blk then
              bindE (squeeze_cond E s) (\<lambda>s.
              bindE (squeeze2d E out 2) (\<lambda>out. Inr (out, s)))
            else Inr (out, s)) (\<lambda>(out, s).
     bindE (block_op blk out s) (\<lambda>(out, logdet).
     bindE (tadd logdet_accum logdet) (\<lambda>logdet_accum.
     bindE (case blk of
              Internal ib \<Rightarrow>
                bindE (split2d E out (z1_channels ib)) (\<lambda>(out1, out2).
                Inr (out1, outputs @ [out2]))
            | _ \<Rightarrow> Inr (out, outputs)) (\<lambda>(out, outputs).
     MaCow_down E block_op rest (out, s, logdet_accum, outputs)))))"

text \<open>The loop \<open>for _ in range(self.internals)\<close> that pops and recombines.\<close>

fun MaCow_up :: "externals \<Rightarrow> nat \<Rightarrow> tensor \<times> tensor list \<Rightarrow> error + (tensor \<times> tensor list)" where
  "MaCow_up E 0 (out, outputs) = Inr (out, outputs)"
| "MaCow_up E (Suc n) (out, outputs) =
     bindE (pop outputs) (\<lambda>(out2, outputs).
     bindE (unsplit2d E [out, out2]) (\<lambda>u.
     bindE (unsqueeze2d E u 2) (\<lambda>out.
     MaCow_up E n (out, outputs))))"

text \<open>
  \<open>forward\<close> and \<open>init\<close> up to their assertion, with the list \<open>outputs\<close> as it is
  then, and the methods themselves.
\<close>

definition MaCow_forward_run ::
  "externals \<Rightarrow> MaCow \<Rightarrow> tensor \<Rightarrow> tensor option \<Rightarrow> error + (tensor \<times> tensor \<times> tensor list)" where
  "MaCow_forward_run E self input s =
     bindE (size_at input 0) (\<lambda>b.
     bindE (MaCow_down E (block_forward E) (blocks self) (input, s, new_zeros [b], [])) (\<lambda>(out, s, logdet_accum, outputs).
     bindE (unsqueeze2d E out 2) (\<lambda>out.
     bindE (MaCow_up E (nat (internals self)) (out, outputs)) (\<lambda>(out, outputs).
     Inr (out, logdet_accum, outputs)))))"

definition MaCow_forward ::
  "externals \<Rightarrow> MaCow \<Rightarrow> tensor \<Rightarrow> tensor option \<Rightarrow> error + (tensor \<times> tensor)" where
  "MaCow_forward E self input s =
     bindE (MaCow_forward_run E self input s) (\<lambda>(out, logdet_accum, outputs).
     if length outputs = 0 then Inr (out, logdet_accum) else Inl (AssertionError ''''))"

definition MaCow_init_run ::
  "externals \<Rightarrow> MaCow \<Rightarrow> tensor \<Rightarrow> tensor option \<Rightarrow> real \<Rightarrow> error + (tensor \<times> tensor \<times> tensor list)" where
  "MaCow_init_run E self data s init_scale =
     bindE (size_at data 0) (\<lambda>b.
     bindE (MaCow_down E (\<lambda>blk out s. block_init E blk out s init_scale) (blocks self)
              (data, s, new_zeros [b], [])) (\<lambda>(out, s, logdet_accum, outputs).
     bindE (unsqueeze2d E out 2) (\<lambda>out.
     bindE (MaCow_up E (nat (internals self)) (out, outputs)) (\<lambda>(out, outputs).
     Inr (out, logdet_accum, outputs)))))"

definition MaCow_init ::
  "externals \<Rightarrow> MaCow \<Rightarrow> tensor \<Rightarrow> tensor option \<Rightarrow> real \<Rightarrow> error + (tensor \<times> tensor)" where
  "MaCow_init E self data s init_scale =
     bindE (MaCow_init_run E self data s init_scale) (\<lambda>(out, logdet_accum, outputs).
     if length outputs = 0 then Inr (out, logdet_accum) else Inl (AssertionError ''''))"

text \<open>The two loops of \<open>backward\<close>.\<close>

fun MaCow_splits ::
  "externals \<Rightarrow> block list \<Rightarrow> tensor \<times> tensor option \<times> tensor list \<Rightarrow>
   error + (tensor \<times> tensor option \<times> tensor list)" where
  "MaCow_splits E [] (out, s, outputs) = Inr (out, s, outputs)"
| "MaCow_splits E (blk # rest) (out, s, outputs) =
     bindE (case blk of
              Internal ib \<Rightarrow>
                bindE (squeeze_cond E s) (\<lambda>s.
                bindE (split2d E out (z1_channels ib)) (\<lambda>(out1, out2).
                bindE (squeeze2d E out1 2) (\<lambda>out.
                Inr (out, s, outputs @ [out2]))))
            | _ \<Rightarrow> Inr (out, s, outputs)) (\<lambda>(out, s, outputs).
     MaCow_splits E rest (out, s, outputs))"

fun MaCow_rebuild ::
  "externals \<Rightarrow> block list \<Rightarrow> tensor \<times> tensor option \<times> tensor \<times> tensor list \<Rightarrow>
   error + (tensor \<times> tensor option \<times> tensor \<times> tensor list)" where
  "MaCow_rebuild E [] (out, s, logdet_accum, outputs) = Inr (out, s, logdet_accum, outputs)"
| "MaCow_rebuild E (blk # rest) (out, s, logdet_accum, outputs) =
     bindE (if is_Internal blk then
              bindE (pop outputs) (\<lambda>(out2, outputs).
              bindE (unsplit2d E [out, out2]) (\<lambda>out. Inr (out, outputs)))
            else Inr (out, outputs)) (\<lambda>(out, outputs).
     bindE (block_backward E blk out s) (\<lambda>(out, logdet).
     bindE (tadd logdet_accum logdet) (\<lambda>logdet_accum.
     bindE (if is_Internal blk \<or> is_Top blk then
              bindE (unsqueeze_cond E s) (\<lambda>s.
              bindE (unsqueeze2d E out 2) (\<lambda>out. Inr (out, s)))
            else Inr (out, s)) (\<lambda>(out, s).
     MaCow_rebuild E rest (out, s, logdet_accum, outputs)))))"

definition MaCow_backward_run ::
  "externals \<Rightarrow> MaCow \<Rightarrow> tensor \<Rightarrow> tensor option \<Rightarrow> error + (tensor \<times> tensor \<times> tensor list)" where
  "MaCow_backward_run E self input s =
     bindE (squeeze_cond E s) (\<lambda>s.
     bindE (squeeze2d E input 2) (\<lambda>out.
     bindE (MaCow_splits E (blocks self) (out, s, [])) (\<lambda>(out, s, outputs).
     bindE (size_at input 0) (\<lambda>b.
     bindE (MaCow_rebuild E (rev (blocks self)) (out, s, new_zeros [b], outputs)) (\<lambda>(out, s, logdet_accum, outputs).
     Inr (out, logdet_accum, outputs))))))"

definition MaCow_backward ::
  "externals \<Rightarrow> MaCow \<Rightarrow> tensor \<Rightarrow> tensor option \<Rightarrow> error + (tensor \<times> tensor)" where
  "MaCow_backward E self input s =
     bindE (MaCow_backward_run E self input s) (\<lambda>(out, logdet_accum, outputs).
     if length outputs = 0 then Inr (out, logdet_accum) else Inl (AssertionError ''''))"

subsection \<open>The vocabulary of the statements about the composite flows\<close>

text \<open>
  Flows applied one after the other: each receives the output of the one before, and the
  log-determinants are added up in that order. \<open>in_sequence_from\<close> starts from a given
  accumulator, \<open>in_sequence\<close> from the log-determinant of the first flow.
\<close>

fun in_sequence_from ::
  "tensor \<Rightarrow> (tensor \<Rightarrow> error + (tensor \<times> tensor)) list \<Rightarrow> tensor \<Rightarrow> error + (tensor \<times> tensor)" where
  "in_sequence_from acc [] x = Inr (x, acc)"
| "in_sequence_from acc (f # fs) x =
     bindE (f x) (\<lambda>(y, l). bindE (tadd acc l) (\<lambda>acc. in_sequence_from acc fs y))"

fun in_sequence ::
  "(tensor \<Rightarrow> error + (tensor \<times> tensor)) list \<Rightarrow> tensor \<Rightarrow> error + (tensor \<times> tensor)" where
  "in_sequence [] x = Inl ValueError"
| "in_sequence (f # fs) x = bindE (f x) (\<lambda>(y, l). in_sequence_from l fs y)"

text \<open>
  The six flows of a unit in the order of the specification, each with the conditioning
  it is given (the normalizations receive none), as functions of the tensor; \<open>op\<close> is
  the direction (\<open>e_forward E\<close> or \<open>e_backward E\<close>).
\<close>

definition unit_stages ::
  "(elem_flow \<Rightarrow> tensor \<Rightarrow> tensor option \<Rightarrow> error + (tensor \<times> tensor)) \<Rightarrow> MaCowUnit \<Rightarrow> tensor option \<Rightarrow>
   (tensor \<Rightarrow> error + (tensor \<times> tensor)) list" where
  "unit_stages op u s =
     [(\<lambda>x. op (actnorm1 u) x None), (\<lambda>x. op (conv1 u) x s), (\<lambda>x. op (conv2 u) x s),
      (\<lambda>x. op (actnorm2 u) x None), (\<lambda>x. op (conv3 u) x s), (\<lambda>x. op (conv4 u) x s)]"

text \<open>The externals of the closed instances: every collaborating flow is the identity
  with log-determinant zero, a \<open>Prior\<close> keeps \<open>in_channels - in_channels // factor\<close>
  channels, \<open>split2d\<close> and \<open>unsplit2d\<close> are the slices and the concatenation along the
  channels, and \<open>squeeze2d\<close> trades each halving of height and width for four times
  the channels without moving an entry.\<close>

fun elem_in_channels :: "elem_flow \<Rightarrow> int" where
  "elem_in_channels (ActNorm2dFlow p c iv) = c"
| "elem_in_channels (MaskedConvFlow p c k sc ord scale iv) = c"
| "elem_in_channels (GlowStep p c h sc scale iv ct sl nh pe dr) = c"
| "elem_in_channels (Prior p c h sc scale iv f) = c"

text \<open>
  Modelled from the spec: the attribute \<open>z1_channels\<close> of a \<open>Prior\<close> (class of
  macow.flows.glow, not among the sources). The specification has \<open>z1_channels\<close>
  shrink by \<open>in_channels / factor\<close> at an internal level; it is the value that
  \<open>NICE.__init__\<close> computes from the same two arguments, and the one the assertion of
  \<open>MaCowInternalBlock.__init__\<close> demands of the first prior.
\<close>

fun Prior_z1_channels :: "elem_flow \<Rightarrow> int" where
  "Prior_z1_channels (Prior p c h sc scale iv f) = c - c div f"
| "Prior_z1_channels fl = elem_in_channels fl"

definition id_flow :: "tensor \<Rightarrow> error + (tensor \<times> tensor)" where
  "id_flow x = bindE (size_at x 0) (\<lambda>b. Inr (x, new_zeros [b]))"

definition reshape_squeeze :: "tensor \<Rightarrow> int \<Rightarrow> error + tensor" where
  "reshape_squeeze x factor =
     (case dims x of
        [b, c, h, w] \<Rightarrow>
          if factor = 2 \<and> even h \<and> even w then
            Inr \<lparr>dims = [b, 4 * c, h div 2, w div 2], elems = elems x\<rparr>
          else Inl (AssertionError '''')
      | _ \<Rightarrow> Inl ValueError)"

definition reshape_unsqueeze :: "tensor \<Rightarrow> int \<Rightarrow> error + tensor" where
  "reshape_unsqueeze x factor =
     (case dims x of
        [b, c, h, w] \<Rightarrow>
          if factor = 2 \<and> c mod 4 = 0 then
            Inr \<lparr>dims = [b, c div 4, 2 * h, 2 * w], elems = elems x\<rparr>
          else Inl (AssertionError '''')
      | _ \<Rightarrow> Inl ValueError)"

definition slice_split :: "tensor \<Rightarrow> int \<Rightarrow> error + (tensor \<times> tensor)" where
  "slice_split x k =
     bindE (slice_to (nat k) x) (\<lambda>a. bindE (slice_from (nat k) x) (\<lambda>b. Inr (a, b)))"

fun cat_all :: "tensor list \<Rightarrow> error + tensor" where
  "cat_all [] = Inl ValueError"
| "cat_all [x] = Inr x"
| "cat_all (x # y # ys) = bindE (cat1 x y) (\<lambda>z. cat_all (z # ys))"

definition plain_externals :: externals where
  "plain_externals =
     \<lparr>e_forward = (\<lambda>f x s. id_flow x),
      e_backward = (\<lambda>f x s. id_flow x),
      e_init = (\<lambda>f x s sc. id_flow x),
      e_z1_channels = Prior_z1_channels,
      squeeze2d = reshape_squeeze,
      unsqueeze2d = reshape_unsqueeze,
      split2d = slice_split,
      unsplit2d = cat_all\<rparr>"

text \<open>The unit and the step that the constructors build for \<open>c\<close> channels, the
  kernel size \<open>[3, 5]\<close> and eight hidden channels.\<close>

definition example_unit :: "path \<Rightarrow> int \<Rightarrow> MaCowUnit" where
  "example_unit p c =
     \<lparr>inverse_flag = False,
      actnorm1 = ActNorm2dFlow (p @ [Attr ''actnorm1'']) c False,
      actnorm2 = ActNorm2dFlow (p @ [Attr ''actnorm2'']) c False,
      conv1 = MaskedConvFlow (p @ [Attr ''conv1'']) c (3, 5) 0 ''A'' True False,
      conv2 = MaskedConvFlow (p @ [Attr ''conv2'']) c (3, 5) 0 ''B'' True False,
      conv3 = MaskedConvFlow (p @ [Attr ''conv3'']) c (5, 3) 0 ''C'' True False,
      conv4 = MaskedConvFlow (p @ [Attr ''conv4'']) c (5, 3) 0 ''D'' True False\<rparr>"

definition example_step :: "path \<Rightarrow> int \<Rightarrow> MaCowStep" where
  "example_step p c =
     \<lparr>inverse_flag = False,
      units = [example_unit (p @ [Attr ''units'', Idx 0]) c,
               example_unit (p @ [Attr ''units'', Idx 1]) c],
      glow_step = GlowStep (p @ [Attr ''glow_step'']) c 8 0 True False ''conv'' None 1 True 0\<rparr>"

text \<open>
  The channel counts at the top level, read off the built pyramid: the \<open>in_channels\<close>
  with which the Glow step of every step of the top block was constructed.
\<close>

definition top_channels :: "block list \<Rightarrow> int list" where
  "top_channels bs =
     concat (map (\<lambda>b. case b of
                          Top tb \<Rightarrow> map (\<lambda>st. elem_in_channels (glow_step st)) (MaCowTopBlock.steps tb)
                        | _ \<Rightarrow> []) bs)"

definition top_channels_of :: "error + MaCow \<Rightarrow> error + int list" where
  "top_channels_of r = (case r of Inl e \<Rightarrow> Inl e | Inr m \<Rightarrow> Inr (top_channels (blocks m)))"

text \<open>
  The channel plan of a pyramid, written from the configuration alone, to be compared
  with what the constructor builds. An internal level that receives \<open>c\<close> channels from
  the level below squeezes them to \<open>4 * c\<close> and passes on
  \<open>4 * c - len(num_steps[level]) * (4 * c // factors[level])\<close>; a bottom level passes
  on its channels unchanged; the top level works on four times what the last level
  below it passes on. \<open>internal_levels_of\<close> pairs the entries of \<open>num_steps\<close> of
  the internal levels with \<open>factors\<close>.
\<close>

definition num_layers_of :: "nsteps \<Rightarrow> int" where
  "num_layers_of n = (case n of Count k \<Rightarrow> 0 | Counts xs \<Rightarrow> int (length xs))"

definition kept_channels :: "int \<Rightarrow> nsteps \<times> int \<Rightarrow> int" where
  "kept_channels c = (\<lambda>(n, f). c * 4 - num_layers_of n * (c * 4 div f))"

fun channel_plan :: "int \<Rightarrow> (nsteps \<times> int) list \<Rightarrow> int list" where
  "channel_plan c [] = []"
| "channel_plan c (p # ps) = kept_channels c p # channel_plan (kept_channels c p) ps"

definition internal_levels_of :: "int \<Rightarrow> bool \<Rightarrow> nsteps list \<Rightarrow> int list \<Rightarrow> (nsteps \<times> int) list" where
  "internal_levels_of L bottom ns fs =
     zip (if bottom then take (nat L - 2) (drop 1 ns) else take (nat L - 1) ns) fs"

definition planned_top_channels :: "int \<Rightarrow> bool \<Rightarrow> nsteps list \<Rightarrow> int list \<Rightarrow> int \<Rightarrow> int" where
  "planned_top_channels L bottom ns fs c =
     last (c # channel_plan c (internal_levels_of L bottom ns fs)) * 4"

text \<open>
  The channel counts that the internal levels pass on, read off the built pyramid: the
  attribute \<open>z1_channels\<close> of every internal block, in the order of the levels.
\<close>

definition internal_channels :: "block list \<Rightarrow> int list" where
  "internal_channels bs =
     concat (map (\<lambda>b. case b of Internal ib \<Rightarrow> [z1_channels ib] | _ \<Rightarrow> []) bs)"

definition internal_channels_of :: "error + MaCow \<Rightarrow> error + int list" where
  "internal_channels_of r =
     (case r of Inl e \<Rightarrow> Inl e | Inr m \<Rightarrow> Inr (internal_channels (blocks m)))"

section \<open>Properties of the adapters\<close>

lemma bindE_simps [simp]:
  "bindE (Inl e) f = Inl e"
  "bindE (Inr v) f = f v"
  by (simp_all add: bindE_def)

lemma mul_scalar_minus_one: "mul_scalar t (- 1) = negated t"
  by (simp add: mul_scalar_def negated_def)

text \<open>
  C4. \<open>fwdpass\<close> with \<open>init=True\<close> on an inverse flow and \<open>bwdpass\<close> with
  \<open>init=True\<close> on a non-inverse flow are the RuntimeError, whatever the flow's own
  methods are (none of them is called); with \<open>init=False\<close> the same calls are the
  flow's \<open>backward\<close>, and raise only what \<open>backward\<close> raises.
\<close>

theorem adapter_init_misuse:
  "(inverse_flag f \<longrightarrow>
      fwdpass f x h True sc =
        Inl (RuntimeError ''inverse flow shold be initialized with backward pass'') \<and>
      fwdpass f x h False sc =
        bindE (backward f x h) (\<lambda>(y, logdet). Inr (y, mul_scalar logdet (- 1.0)))) \<and>
   (\<not> inverse_flag f \<longrightarrow>
      bwdpass f x h True sc =
        Inl (RuntimeError ''forward flow should be initialzed with forward pass'') \<and>
      bwdpass f x h False sc = backward f x h)"
  by (cases "backward f x h") (auto simp: fwdpass_def bwdpass_def)

theorem adapter_init_misuse_witness:
  "fwdpass (const_flow True \<lparr>dims = [1], elems = [2]\<rparr>) \<lparr>dims = [1, 1], elems = [5]\<rparr> [] True 1 =
     Inl (RuntimeError ''inverse flow shold be initialized with backward pass'') \<and>
   fwdpass (const_flow True \<lparr>dims = [1], elems = [2]\<rparr>) \<lparr>dims = [1, 1], elems = [5]\<rparr> [] False 1 =
     Inr (\<lparr>dims = [1, 1], elems = [5]\<rparr>, \<lparr>dims = [1], elems = [2]\<rparr>) \<and>
   bwdpass (const_flow False \<lparr>dims = [1], elems = [2]\<rparr>) \<lparr>dims = [1, 1], elems = [5]\<rparr> [] True 1 =
     Inl (RuntimeError ''forward flow should be initialzed with forward pass'') \<and>
   bwdpass (const_flow False \<lparr>dims = [1], elems = [2]\<rparr>) \<lparr>dims = [1, 1], elems = [5]\<rparr> [] False 1 =
     Inr (\<lparr>dims = [1, 1], elems = [5]\<rparr>, \<lparr>dims = [1], elems = [- 2]\<rparr>)"
  using adapter_init_misuse [of "const_flow True \<lparr>dims = [1], elems = [2]\<rparr>"
      "\<lparr>dims = [1, 1], elems = [5]\<rparr>" "[]" 1]
    adapter_init_misuse [of "const_flow False \<lparr>dims = [1], elems = [2]\<rparr>"
      "\<lparr>dims = [1, 1], elems = [5]\<rparr>" "[]" 1]
  by (simp add: const_flow_def negated_def mul_scalar_def)

text \<open>
  C5. On a flow with \<open>inverse=False\<close>, \<open>fwdpass\<close> with \<open>init=False\<close> returns
  the output of \<open>forward\<close> and the exact negation of its log-determinant.
\<close>

theorem fwdpass_negates_forward:
  assumes "\<not> inverse_flag f" and "forward f x h = Inr (y, logdet)"
  shows "fwdpass f x h False sc = Inr (y, negated logdet)"
  using assms by (simp add: fwdpass_def mul_scalar_minus_one)

theorem fwdpass_negates_forward_witness:
  "fwdpass (const_flow False \<lparr>dims = [2], elems = [3, - 4]\<rparr>)
       \<lparr>dims = [2, 1], elems = [7, 8]\<rparr> [] False 1 =
     Inr (\<lparr>dims = [2, 1], elems = [7, 8]\<rparr>, \<lparr>dims = [2], elems = [- 3, 4]\<rparr>)"
  using fwdpass_negates_forward [of "const_flow False \<lparr>dims = [2], elems = [3, - 4]\<rparr>"
      "\<lparr>dims = [2, 1], elems = [7, 8]\<rparr>" "[]"
      "\<lparr>dims = [2, 1], elems = [7, 8]\<rparr>" "\<lparr>dims = [2], elems = [3, - 4]\<rparr>" 1]
  by (simp add: const_flow_def negated_def)

lemma length_rows [simp]: "length (rows b n xs) = b"
  by (simp add: rows_def)

lemma nth_rows: "i < b \<Longrightarrow> rows b n xs ! i = take n (drop (i * n) xs)"
  by (simp add: rows_def)

lemma rows_Suc: "rows (Suc b) n xs = take n xs # rows b n (drop n xs)"
proof -
  have "[0..<Suc b] = 0 # map Suc [0..<b]"
    by (simp add: upt_conv_Cons map_Suc_upt del: upt_Suc)
  then show ?thesis
    by (simp add: rows_def comp_def add.commute del: upt_Suc)
qed

lemma rows_0 [simp]: "rows 0 n xs = []"
  by (simp add: rows_def)

lemma concat_rows: "length xs = b * n \<Longrightarrow> concat (rows b n xs) = xs"
  by (induction b arbitrary: xs) (simp_all add: rows_Suc)

lemma length_row:
  assumes "length xs = b * n" and "r \<in> set (rows b n xs)"
  shows "length r = n"
proof -
  from assms(2) obtain i where i: "i < b" and r: "r = take n (drop (i * n) xs)"
    by (auto simp: rows_def)
  from i have "Suc i * n \<le> b * n" by (intro mult_le_mono1) simp
  then have "n \<le> b * n - i * n" by simp
  with r assms(1) show ?thesis by simp
qed

lemma rows_concat: "\<forall>r\<in>set rs. length r = n \<Longrightarrow> rows (length rs) n (concat rs) = rs"
  by (induction rs) (simp_all add: rows_Suc)

lemma expand_same: "length xs = prod_list ds \<Longrightarrow> expand ds ds xs = xs"
proof (induction ds arbitrary: xs)
  case Nil then show ?case by simp
next
  case (Cons m ms)
  have "map (expand ms ms) (rows m (prod_list ms) xs) = rows m (prod_list ms) xs"
    using Cons by (intro map_idI) (auto dest: length_row)
  then show ?case using Cons.prems by (simp add: concat_rows)
qed

lemma bdims_same: "bdims ds ds = Some ds"
  by (induction ds) simp_all

lemma binop_same:
  assumes "wf a" "wf b" "dims a = dims b"
  shows "binop f a b = Inr \<lparr>dims = dims a, elems = map2 f (elems a) (elems b)\<rparr>"
  using assms by (simp add: binop_def bdims_same pad_dims_def expand_same wf_def)

lemma sum_dim1_2d:
  assumes "dims t = [b, d]" "wf t"
  shows "sum_dim1 t = Inr \<lparr>dims = [b], elems = map sum_list (rows b d (elems t))\<rparr>"
proof -
  have len: "length (elems t) = b * d" using assms by (simp add: wf_def)
  have "(\<Sum>j\<leftarrow>[0..<d]. row ! j) = sum_list row" if "row \<in> set (rows b d (elems t))" for row
  proof -
    have "length row = d" using length_row [OF len that] .
    then show ?thesis by (metis map_nth)
  qed
  then have "map (\<lambda>row. [\<Sum>j\<leftarrow>[0..<d]. row ! j]) (rows b d (elems t)) = map (\<lambda>row. [sum_list row]) (rows b d (elems t))"
    by simp
  then show ?thesis using assms(1)
    by (simp add: sum_dim1_def concat_map_singleton comp_def)
qed


lemma map2_same: "map2 f xs xs = map (\<lambda>v. f v v) xs"
  by (simp add: zip_same_conv_map)

lemma sum_list_row_squares:
  "sum_list (take d (drop k (map (\<lambda>v. v * v) xs))) = sqnorm (take d (drop k xs))"
  by (simp add: sqnorm_def take_map drop_map)

lemma size_at_0: "dims t = b # rest \<Longrightarrow> size_at t 0 = Inr b"
  by (simp add: size_at_def)

lemma view_infer_batch:
  "dims t = b # rest \<Longrightarrow> 0 < b \<Longrightarrow>
   view_infer t b = Inr \<lparr>dims = [b, prod_list rest], elems = elems t\<rparr>"
  by (simp add: view_infer_def)

lemma row_sums:
  assumes "dims t = b # rest" "0 < b" "wf t"
  shows "bindE (view_infer t b) (\<lambda>z. bindE (tmul z z) (\<lambda>zz. bindE (sum_dim1 zz) (\<lambda>zsum.
           bindE (size_at z 1) (\<lambda>z1. g zsum z1)))) =
         g \<lparr>dims = [b], elems = map (\<lambda>i. sqnorm (sample (prod_list rest) t i)) [0..<b]\<rparr>
           (prod_list rest)"
proof -
  let ?d = "prod_list rest"
  let ?v = "\<lparr>dims = [b, ?d], elems = elems t\<rparr>"
  let ?zz = "\<lparr>dims = [b, ?d], elems = map (\<lambda>v. v * v) (elems t)\<rparr>"
  have wv: "wf ?v" using assms by (simp add: wf_def)
  have 1: "tmul ?v ?v = Inr ?zz"
    using binop_same [OF wv wv, of "(*)"] by (simp add: tmul_def map2_same)
  have wzz: "wf ?zz" using assms by (simp add: wf_def)
  have "map sum_list (rows b ?d (map (\<lambda>v. v * v) (elems t))) =
        map (\<lambda>i. sqnorm (sample ?d t i)) [0..<b]"
    by (simp add: rows_def sample_def sum_list_row_squares)
  then have 2: "sum_dim1 ?zz = Inr \<lparr>dims = [b], elems = map (\<lambda>i. sqnorm (sample ?d t i)) [0..<b]\<rparr>"
    using sum_dim1_2d [of ?zz b ?d] wzz by simp
  have 3: "size_at ?v (Suc 0) = Inr ?d" by (simp add: size_at_def)
  show ?thesis
    using assms by (simp add: view_infer_batch 1 2 3)
qed



lemma map_div_blocks:
  "map (\<lambda>k. f (k div n)) [0..<b * n] = concat (map (\<lambda>i. replicate n (f i)) [0..<b])"
proof (induction b)
  case 0 then show ?case by simp
next
  case (Suc b)
  have "[0..<Suc b * n] = [0..<b * n] @ [b * n..<b * n + n]"
    by (metis add.commute le_add1 mult_Suc upt_add_eq_append zero_le add_0)
  moreover have "map (\<lambda>k. f (k div n)) [b * n..<b * n + n] = replicate n (f b)"
    by (intro nth_equalityI) (simp_all add: div_nat_eqI ac_simps)
  ultimately show ?case using Suc by simp
qed

lemma concat_concat_map: "concat (concat xss) = concat (map concat xss)"
  by (induction xss) simp_all

lemma concat_replicate_blocks:
  "concat (map (\<lambda>i. concat (replicate n (g i))) [0..<b]) =
   concat (map (\<lambda>k. g (k div n)) [0..<b * n])"
  by (simp add: map_div_blocks concat_concat_map comp_def)

lemma length_concat_const:
  "\<forall>x\<in>set xs. length (f x) = k \<Longrightarrow> length (concat (map f xs)) = length xs * k"
  by (induction xs) simp_all

lemma length_concat_replicate: "length (concat (replicate n r)) = n * length r"
  by (induction n) simp_all

lemma repeat_by_broadcast:
  assumes "wf x" "dims x = b # rest" "1 < n"
  shows "bindE (unsqueeze1 x) (\<lambda>x1.
           bindE (tadd x1 (new_zeros (b # n # rest))) (\<lambda>x2. view x2 ((b * n) # rest))) =
         Inr (repeat_samples n x)"
proof -
  let ?d = "prod_list rest"
  let ?x1 = "\<lparr>dims = b # Suc 0 # rest, elems = elems x\<rparr>"
  let ?rep = "concat (map (\<lambda>i. concat (replicate n (sample ?d x i))) [0..<b])"
  have len: "length (elems x) = b * ?d" using assms by (simp add: wf_def)
  have u: "unsqueeze1 x = Inr ?x1" using assms by (simp add: unsqueeze1_def)
  have bs: "bdims (b # 1 # rest) (b # n # rest) = Some (b # n # rest)"
    using assms(3) by (simp add: bdims_same)
  have e1: "expand (b # 1 # rest) (b # n # rest) (elems x) = ?rep"
  proof -
    have "expand (1 # rest) (n # rest) r = concat (replicate n r)"
      if "r \<in> set (rows b ?d (elems x))" for r
      using assms(3) length_row [OF len that] by (simp add: expand_same)
    then have "map (expand (1 # rest) (n # rest)) (rows b ?d (elems x)) =
               map (\<lambda>r. concat (replicate n r)) (rows b ?d (elems x))"
      by simp
    moreover have "expand (b # 1 # rest) (b # n # rest) (elems x) =
        concat (map (expand (1 # rest) (n # rest)) (rows b ?d (elems x)))"
      by (subst expand.simps(1)) (simp del: expand.simps)
    moreover have "map (\<lambda>r. concat (replicate n r)) (rows b ?d (elems x)) =
        map (\<lambda>i. concat (replicate n (sample ?d x i))) [0..<b]"
      by (simp add: rows_def sample_def comp_def)
    ultimately show ?thesis by simp
  qed
  have ls: "length (sample ?d x i) = ?d" if "i < b" for i
  proof -
    from that have "Suc i * ?d \<le> b * ?d" by (intro mult_le_mono1) simp
    then have "?d \<le> b * ?d - i * ?d" by simp
    then show ?thesis using len by (simp add: sample_def)
  qed
  have "length ?rep = length [0..<b] * (n * ?d)"
    by (intro length_concat_const) (simp add: length_concat_replicate ls)
  then have lrep: "length ?rep = b * n * ?d" by simp
  have e2: "expand (b # n # rest) (b # n # rest) (replicate (b * n * ?d) 0) = replicate (b * n * ?d) 0"
    by (intro expand_same) (simp add: ac_simps)
  have "map2 (+) ?rep (replicate (b * n * ?d) 0) = ?rep"
    using lrep by (intro nth_equalityI) simp_all
  then have t: "tadd ?x1 (new_zeros (b # n # rest)) = Inr \<lparr>dims = b # n # rest, elems = ?rep\<rparr>"
    using bs e1 e2 by (simp add: tadd_def binop_def new_zeros_def pad_dims_def ac_simps)
  show ?thesis
    using assms(2) by (simp add: u t view_def repeat_samples_def concat_replicate_blocks ac_simps)
qed


lemma repeat_samples_once:
  assumes "wf x" "dims x = b # rest"
  shows "repeat_samples (Suc 0) x = x"
proof -
  have "concat (rows b (prod_list rest) (elems x)) = elems x"
    using assms by (intro concat_rows) (simp add: wf_def)
  then show ?thesis
    using assms(2) by (simp add: repeat_samples_def rows_def sample_def)
qed

text \<open>
  C8. \<open>dequantize\<close> on a non-empty batch \<open>x\<close> of size \<open>b # rest\<close> with
  \<open>nsamples = n \<ge> 1\<close>: the noise \<open>epsilon\<close> has size \<open>(b * n) # rest\<close>; the flow is run
  by \<open>fwdpass\<close> on \<open>epsilon\<close> with the conditioning in which every sample of \<open>x\<close>
  stands \<open>n\<close> times in a row, in the order of \<open>x\<close>; the result is the flow's output
  viewed as \<open>b # n # rest\<close> and, viewed as \<open>[b, n]\<close>, the log-posterior
  \<open>-0.5 * \<parallel>epsilon\<^sub>k\<parallel>\<^sup>2 - 0.5 * d * log (2 * pi) - logdet\<^sub>k\<close> of each draw \<open>k\<close>.
\<close>

theorem dequantize_formula:
  assumes "wf x" and "dims x = b # rest" and "0 < b" and "1 \<le> n"
    and "dims (randn ((b * n) # rest)) = (b * n) # rest" and "wf (randn ((b * n) # rest))"
    and "fwdpass (dequant_flow self) (randn ((b * n) # rest)) [repeat_samples n x] False 1.0
           = Inr (u, logdet)"
    and "dims u = (b * n) # rest"
    and "wf logdet" and "dims logdet = [b * n]"
  shows "dequantize randn self x n =
     Inr (\<lparr>dims = b # n # rest, elems = elems u\<rparr>,
          \<lparr>dims = [b, n],
           elems = map (\<lambda>k. - 0.5 * sqnorm (sample (prod_list rest) (randn ((b * n) # rest)) k)
                              - 0.5 * real (prod_list rest) * ln (2 * pi)
                              - elems logdet ! k) [0..<b * n]\<rparr>)"
proof -
  let ?d = "prod_list rest"
  let ?eps = "randn ((b * n) # rest)"
  let ?s = "\<lparr>dims = [b * n], elems = map (\<lambda>i. sqnorm (sample ?d ?eps i)) [0..<b * n]\<rparr>"
  let ?lp = "mul_scalar (add_scalar ?s (ln (pi * 2) * real ?d)) (- 0.5)"
  have pos: "0 < b * n" using assms(3,4) by simp
  have xrep: "(if 1 < n then
                 bindE (unsqueeze1 x) (\<lambda>x1.
                 bindE (tadd x1 (new_zeros (b # n # rest))) (\<lambda>x2. view x2 (dims ?eps)))
               else Inr x) = Inr (repeat_samples n x)"
  proof (cases "1 < n")
    case True
    then show ?thesis using repeat_by_broadcast [OF assms(1,2) True] assms(5) by simp
  next
    case False
    with assms(4) have "n = Suc 0" by simp
    then show ?thesis using repeat_samples_once [OF assms(1,2)] by simp
  qed
  have w: "wf ?lp" and d: "dims ?lp = dims logdet"
    using assms(10) by (simp_all add: wf_def mul_scalar_def add_scalar_def)
  have len: "length (elems logdet) = b * n"
    using assms(9,10) by (simp add: wf_def)
  have "map2 (-) (elems ?lp) (elems logdet) =
        map (\<lambda>k. - 0.5 * sqnorm (sample ?d ?eps k) - 0.5 * real ?d * ln (2 * pi)
                   - elems logdet ! k) [0..<b * n]"
    using len
    by (intro nth_equalityI) (simp_all add: mul_scalar_def add_scalar_def algebra_simps)
  then have sub: "tsub ?lp logdet =
      Inr \<lparr>dims = [b * n],
           elems = map (\<lambda>k. - 0.5 * sqnorm (sample ?d ?eps k) - 0.5 * real ?d * ln (2 * pi)
                   - elems logdet ! k) [0..<b * n]\<rparr>"
    using binop_same [OF w assms(9) d, of "(-)"] assms(10)
    by (simp add: tsub_def mul_scalar_def add_scalar_def)
  have vu: "view u (b # n # rest) = Inr \<lparr>dims = b # n # rest, elems = elems u\<rparr>"
    using assms(8) by (simp add: view_def ac_simps)
  have tl: "tl (dims x) = rest" "tl (dims (repeat_samples n x)) = rest"
    using assms(2) by (simp_all add: repeat_samples_def)
  have "dequantize randn self x n =
        bindE (view \<lparr>dims = [b * n],
           elems = map (\<lambda>k. - 0.5 * sqnorm (sample ?d ?eps k) - 0.5 * real ?d * ln (2 * pi)
                   - elems logdet ! k) [0..<b * n]\<rparr> [b, n])
          (\<lambda>lp. Inr (\<lparr>dims = b # n # rest, elems = elems u\<rparr>, lp))"
    unfolding dequantize_def
    by (simp only: size_at_0 [OF assms(2)] bindE_simps Let_def tl xrep assms(7) prod.case
        size_at_0 [OF assms(5)] row_sums [OF assms(5) pos assms(6)] sub vu)
  then show ?thesis by (simp add: view_def)
qed




theorem dequantize_formula_witness:
  "dequantize ramp
     \<lparr>flow = const_flow True \<lparr>dims = [1], elems = [0]\<rparr>,
      dequant_flow = const_flow False \<lparr>dims = [2], elems = [1, 2]\<rparr>\<rparr>
     \<lparr>dims = [1, 2], elems = [5, 6]\<rparr> 2 =
   Inr (\<lparr>dims = [1, 2, 2], elems = [0, 1, 2, 3]\<rparr>,
        \<lparr>dims = [1, 2], elems = [1 / 2 - ln (2 * pi), - 9 / 2 - ln (2 * pi)]\<rparr>)"
  using dequantize_formula [of "\<lparr>dims = [1, 2], elems = [5, 6]\<rparr>" 1 "[2]" 2 ramp
      "\<lparr>flow = const_flow True \<lparr>dims = [1], elems = [0]\<rparr>,
        dequant_flow = const_flow False \<lparr>dims = [2], elems = [1, 2]\<rparr>\<rparr>"
      "\<lparr>dims = [2, 2], elems = [0, 1, 2, 3]\<rparr>"
      "\<lparr>dims = [2], elems = [- 1, - 2]\<rparr>"]
  by (simp add: ramp_def fwdpass_def const_flow_def wf_def sample_def sqnorm_def
      mul_scalar_def repeat_samples_def upt_conv_Cons add_divide_distrib)

lemma bdims_expand_length:
  "bdims ms ns = Some ds \<Longrightarrow> length xs = prod_list ms \<Longrightarrow>
   length (expand ms ds xs) = prod_list ds"
proof (induction ms ns arbitrary: ds xs rule: bdims.induct)
  case 1
  then show ?case by simp
next
  case (2 m ms n ns)
  show ?case
  proof (cases "m = n \<or> n = 1")
    case True
    with "2.prems" obtain ds' where ds: "ds = m # ds'" and b: "bdims ms ns = Some ds'"
      by auto
    have "length (expand ms ds' r) = prod_list ds'" if "r \<in> set (rows m (prod_list ms) xs)" for r
      using "2.IH"(1) [OF True b] length_row [OF _ that] "2.prems"(2) by simp
    then have "length (concat (map (expand ms ds') (rows m (prod_list ms) xs))) =
               length (rows m (prod_list ms) xs) * prod_list ds'"
      by (intro length_concat_const) simp
    then show ?thesis using ds by simp
  next
    case False
    with "2.prems" obtain ds' where ds: "ds = n # ds'" and b: "bdims ms ns = Some ds'"
        and m: "m = 1"
      by (auto split: if_splits)
    have "length (expand ms ds' xs) = prod_list ds'"
      using "2.IH"(2) [OF False m b] "2.prems"(2) m by simp
    then show ?thesis using ds m False by (simp add: length_concat_replicate)
  qed
qed simp_all

lemma bdims_sym_expand_length:
  "bdims ms ns = Some ds \<Longrightarrow> length ys = prod_list ns \<Longrightarrow>
   length (expand ns ds ys) = prod_list ds"
proof (induction ms ns arbitrary: ds ys rule: bdims.induct)
  case 1
  then show ?case by simp
next
  case (2 m ms n ns)
  show ?case
  proof (cases "m = n \<or> n = 1")
    case True
    with "2.prems" obtain ds' where ds: "ds = m # ds'" and b: "bdims ms ns = Some ds'"
      by auto
    show ?thesis
    proof (cases "n = m")
      case True
      have "length (expand ns ds' r) = prod_list ds'" if "r \<in> set (rows n (prod_list ns) ys)" for r
        using "2.IH"(1) [OF \<open>m = n \<or> n = 1\<close> b] length_row [OF _ that] "2.prems"(2) by simp
      then have "length (concat (map (expand ns ds') (rows n (prod_list ns) ys))) =
                 length (rows n (prod_list ns) ys) * prod_list ds'"
        by (intro length_concat_const) simp
      then show ?thesis using ds True by simp
    next
      case False
      with True have n: "n = 1" by simp
      have "length (expand ns ds' ys) = prod_list ds'"
        using "2.IH"(1) [OF True b] "2.prems"(2) n by simp
      then show ?thesis using ds n False by (simp add: length_concat_replicate)
    qed
  next
    case False
    with "2.prems" obtain ds' where ds: "ds = n # ds'" and b: "bdims ms ns = Some ds'"
        and m: "m = 1"
      by (auto split: if_splits)
    have "length (expand ns ds' r) = prod_list ds'" if "r \<in> set (rows n (prod_list ns) ys)" for r
      using "2.IH"(2) [OF False m b] length_row [OF _ that] "2.prems"(2) by simp
    then have "length (concat (map (expand ns ds') (rows n (prod_list ns) ys))) =
               length (rows n (prod_list ns) ys) * prod_list ds'"
      by (intro length_concat_const) simp
    then show ?thesis using ds by simp
  qed
qed simp_all

lemma wf_pad: "prod_list (pad_dims r ds) = prod_list ds"
  by (simp add: pad_dims_def)

lemma binop_wf:
  assumes "wf a" "wf b" "binop f a b = Inr c"
  shows "wf c"
proof -
  let ?r = "max (length (dims a)) (length (dims b))"
  from assms(3) obtain ds where b: "bdims (pad_dims ?r (dims a)) (pad_dims ?r (dims b)) = Some ds"
    and c: "c = \<lparr>dims = ds, elems = map2 f (expand (pad_dims ?r (dims a)) ds (elems a))
                                           (expand (pad_dims ?r (dims b)) ds (elems b))\<rparr>"
    by (auto simp: binop_def Let_def split: option.splits)
  show ?thesis
    using bdims_expand_length [OF b, of "elems a"] bdims_sym_expand_length [OF b, of "elems b"]
      assms(1,2)
    by (simp add: c wf_def wf_pad)
qed


lemma rows_all_length:
  "length xs = b * n \<Longrightarrow> \<forall>r\<in>set (rows b n xs). length r = n"
  using length_row by blast

lemma map_take_append_rows:
  "length A = length B \<Longrightarrow> \<forall>r\<in>set A. length r = k \<Longrightarrow>
   map (take k \<circ> (\<lambda>(x, y). x @ y)) (zip A B) = A \<and>
   map (drop k \<circ> (\<lambda>(x, y). x @ y)) (zip A B) = B"
  by (induction A B rule: list_induct2) simp_all

lemma length_map2_append:
  "length A = length B \<Longrightarrow> \<forall>r\<in>set A. length r = p \<Longrightarrow> \<forall>r\<in>set B. length r = q \<Longrightarrow>
   \<forall>x\<in>set (map2 (@) A B). length x = p + q"
  by (induction A B rule: list_induct2) simp_all

lemma length_concat_all:
  "\<forall>x\<in>set xs. length x = k \<Longrightarrow> length (concat xs) = length xs * k"
  by (induction xs) simp_all

lemma min_mult_right_nat: "min (c * i) (k * i) = min c k * (i::nat)"
  by (cases "c \<le> k") (auto simp: min_def)

lemma map2_append_take_drop: "map2 (@) (map (take k) rs) (map (drop k) rs) = rs"
  by (induction rs) simp_all

lemma rows_concat_len:
  "length rs = b \<Longrightarrow> \<forall>r\<in>set rs. length r = n \<Longrightarrow> rows b n (concat rs) = rs"
  using rows_concat by blast

lemma length_concat_rows_take:
  assumes "length xs = b * (c * i)"
  shows "length (concat (map (take (k * i)) (rows b (c * i) xs))) = b * (min k c * i)"
proof -
  have "length (take (k * i) r) = min k c * i" if "r \<in> set (rows b (c * i) xs)" for r
    using length_row [OF assms that] by (simp add: min_mult_right_nat min.commute)
  then have "length (concat (map (take (k * i)) (rows b (c * i) xs))) =
             length (rows b (c * i) xs) * (min k c * i)"
    by (intro length_concat_const) simp
  then show ?thesis by simp
qed

lemma length_concat_rows_drop:
  assumes "length xs = b * (c * i)"
  shows "length (concat (map (drop (k * i)) (rows b (c * i) xs))) = b * ((c - k) * i)"
proof -
  have "length (drop (k * i) r) = (c - k) * i" if "r \<in> set (rows b (c * i) xs)" for r
    using length_row [OF assms that] by (simp add: diff_mult_distrib)
  then have "length (concat (map (drop (k * i)) (rows b (c * i) xs))) =
             length (rows b (c * i) xs) * ((c - k) * i)"
    by (intro length_concat_const) simp
  then show ?thesis by simp
qed

lemma wf_slice_to: "wf t \<Longrightarrow> slice_to k t = Inr z \<Longrightarrow> wf z"
  by (auto simp: slice_to_def wf_def length_concat_rows_take split: list.splits)

lemma wf_slice_from: "wf t \<Longrightarrow> slice_from k t = Inr z \<Longrightarrow> wf z"
  by (auto simp: slice_from_def wf_def length_concat_rows_drop split: list.splits)

lemma wf_chunk2: "wf t \<Longrightarrow> chunk2 t = Inr (x, y) \<Longrightarrow> wf x \<and> wf y"
  by (auto simp: chunk2_def bindE_def split: list.splits if_splits sum.splits
      dest: wf_slice_to wf_slice_from)

lemma cat1_elems:
  assumes "wf a" "wf b" "dims a = n # ca # r" "dims b = n # cb # r"
  shows "rows n ((ca + cb) * prod_list r)
           (concat (map2 (@) (rows n (ca * prod_list r) (elems a))
                             (rows n (cb * prod_list r) (elems b)))) =
         map2 (@) (rows n (ca * prod_list r) (elems a)) (rows n (cb * prod_list r) (elems b))"
proof -
  let ?A = "rows n (ca * prod_list r) (elems a)"
  let ?B = "rows n (cb * prod_list r) (elems b)"
  have la: "\<forall>x\<in>set ?A. length x = ca * prod_list r"
    using assms(1,3) by (intro rows_all_length) (simp add: wf_def)
  have lb: "\<forall>x\<in>set ?B. length x = cb * prod_list r"
    using assms(2,4) by (intro rows_all_length) (simp add: wf_def)
  have "\<forall>x\<in>set (map2 (@) ?A ?B). length x = ca * prod_list r + cb * prod_list r"
    using la lb by (intro length_map2_append) simp_all
  then show ?thesis by (intro rows_concat_len) (simp_all add: add_mult_distrib)
qed

lemma slices_of_cat1:
  assumes "wf a" "wf b" "cat1 a b = Inr t" "dims a = n # ca # r"
  shows "slice_to ca t = Inr a" and "slice_from ca t = Inr b" and "wf t"
proof -
  from assms(3,4) obtain cb where db: "dims b = n # cb # r"
    by (auto simp: cat1_def split: list.splits if_splits)
  let ?A = "rows n (ca * prod_list r) (elems a)"
  let ?B = "rows n (cb * prod_list r) (elems b)"
  have t: "t = \<lparr>dims = n # (ca + cb) # r, elems = concat (map2 (@) ?A ?B)\<rparr>"
    using assms(3,4) db by (simp add: cat1_def)
  have la: "\<forall>x\<in>set ?A. length x = ca * prod_list r"
    using assms(1,4) by (intro rows_all_length) (simp add: wf_def)
  have ca: "concat ?A = elems a"
    using assms(1,4) by (intro concat_rows) (simp add: wf_def)
  have cb: "concat ?B = elems b"
    using assms(2) db by (intro concat_rows) (simp add: wf_def)
  note td = map_take_append_rows [of ?A ?B, OF _ la]
  show "slice_to ca t = Inr a"
    using assms(4) by (simp add: slice_to_def t cat1_elems [OF assms(1,2,4) db] td ca)
  show "slice_from ca t = Inr b"
    using db by (simp add: slice_from_def t cat1_elems [OF assms(1,2,4) db] td cb)
  have lb: "\<forall>x\<in>set ?B. length x = cb * prod_list r"
    using assms(2) db by (intro rows_all_length) (simp add: wf_def)
  have "\<forall>x\<in>set (map2 (@) ?A ?B). length x = ca * prod_list r + cb * prod_list r"
    using la lb by (intro length_map2_append) simp_all
  then have "length (concat (map2 (@) ?A ?B)) =
             length (map2 (@) ?A ?B) * (ca * prod_list r + cb * prod_list r)"
    by (rule length_concat_all)
  then show "wf t"
    by (simp add: t wf_def add_mult_distrib)
qed


lemma bindE_Inr_iff: "bindE m f = Inr v \<longleftrightarrow> (\<exists>u. m = Inr u \<and> f u = Inr v)"
  by (cases m) simp_all

lemma wf_tmap [simp]: "wf (tmap f t) = wf t"
  by (simp add: tmap_def wf_def)

lemma wf_add_scalar [simp]: "wf (add_scalar t c) = wf t"
  by (simp add: add_scalar_def wf_def)

lemma wf_mul_scalar [simp]: "wf (mul_scalar t c) = wf t"
  by (simp add: mul_scalar_def wf_def)

lemma bindE_InrE:
  assumes "bindE m f = Inr v"
  obtains u where "m = Inr u" and "f u = Inr v"
  using assms by (cases m) simp_all

lemma NICEBlock_forward_wf:
  assumes "returns_wf nb" "NICEBlock_forward nb x s = Inr t"
  shows "wf t"
proof -
  from assms(2) obtain y where "nb_conv3 nb y = Inr t"
    unfolding NICEBlock_forward_def Let_def
    by (elim bindE_InrE) simp
  with assms(1) show ?thesis by (simp add: returns_wf_def)
qed

lemma NICEBlock_init_wf:
  assumes "returns_wf nb" "NICEBlock_init nb x s sc = Inr t"
  shows "wf t"
proof -
  from assms(2) obtain y c where "nb_conv3_init nb y c = Inr t"
    unfolding NICEBlock_init_def Let_def
    by (elim bindE_InrE) simp
  with assms(1) show ?thesis by (simp add: returns_wf_def)
qed

lemma scale_of_chunk_wf:
  assumes "wf m"
    and "(if fl then bindE (chunk2 m) (\<lambda>(mu, log_scale).
              Inr (mu, Some (tmap sigmoid (add_scalar log_scale 2))))
          else Inr (m, None)) = Inr (mu, sc)"
  shows "wf mu" and "sc = Some t \<Longrightarrow> wf t"
proof -
  show "wf mu"
  proof (cases fl)
    case True
    with assms(2) obtain p where p: "chunk2 m = Inr p" and
      "(case p of (mu, log_scale) \<Rightarrow> Inr (mu, Some (tmap sigmoid (add_scalar log_scale 2)))) = Inr (mu, sc)"
      by (auto elim: bindE_InrE)
    then show ?thesis using wf_chunk2 [OF assms(1), of "fst p" "snd p"] by (cases p) auto
  next
    case False
    with assms show ?thesis by simp
  qed
  show "wf t" if "sc = Some t"
  proof (cases fl)
    case True
    with assms(2) obtain p where p: "chunk2 m = Inr p" and
      "(case p of (mu, log_scale) \<Rightarrow> Inr (mu, Some (tmap sigmoid (add_scalar log_scale 2)))) = Inr (mu, sc)"
      by (auto elim: bindE_InrE)
    then show ?thesis using wf_chunk2 [OF assms(1), of "fst p" "snd p"] that by (cases p) auto
  next
    case False
    with assms that show ?thesis by simp
  qed
qed

lemma calc_mu_and_scale_wf:
  assumes "returns_wf (net self)" "calc_mu_and_scale self z1 s = Inr (mu, sc)"
  shows "wf mu" and "sc = Some t \<Longrightarrow> wf t"
proof -
  from assms(2) obtain m where m: "NICEBlock_forward (net self) z1 s = Inr m" and
    r: "(if scale_flag self then bindE (chunk2 m) (\<lambda>(mu, log_scale).
              Inr (mu, Some (tmap sigmoid (add_scalar log_scale 2))))
          else Inr (m, None)) = Inr (mu, sc)"
    unfolding calc_mu_and_scale_def by (elim bindE_InrE)
  note w = NICEBlock_forward_wf [OF assms(1) m]
  show "wf mu" using scale_of_chunk_wf(1) [OF w r] .
  show "sc = Some t \<Longrightarrow> wf t" using scale_of_chunk_wf(2) [OF w r] .
qed

lemma init_net_wf:
  assumes "returns_wf (net self)" "init_net self z1 s isc = Inr (mu, sc)"
  shows "wf mu" and "sc = Some t \<Longrightarrow> wf t"
proof -
  from assms(2) obtain m where m: "NICEBlock_init (net self) z1 s isc = Inr m" and
    r: "(if scale_flag self then bindE (chunk2 m) (\<lambda>(mu, log_scale).
              Inr (mu, Some (tmap sigmoid (add_scalar log_scale 2))))
          else Inr (m, None)) = Inr (mu, sc)"
    unfolding init_net_def by (elim bindE_InrE)
  note w = NICEBlock_init_wf [OF assms(1) m]
  show "wf mu" using scale_of_chunk_wf(1) [OF w r] .
  show "sc = Some t \<Longrightarrow> wf t" using scale_of_chunk_wf(2) [OF w r] .
qed

lemma slice_to_dims:
  "dims t = b # c # rest \<Longrightarrow> k \<le> c \<Longrightarrow> slice_to k t = Inr z \<Longrightarrow> dims z = b # k # rest"
  by (auto simp: slice_to_def)

lemma retained_after_cat1:
  assumes "wf t" "dims t = b # c # rest" "k \<le> c"
    and "slice_to k t = Inr z1" "wf z2" "cat1 z1 z2 = Inr out"
  shows "slice_to k out = slice_to k t"
  using slices_of_cat1(1) [OF wf_slice_to [OF assms(1,4)] assms(5,6) slice_to_dims [OF assms(2,3,4)]]
    assms(4) by simp



lemma scaled_wf:
  assumes "wf z2" "\<And>t. sc = Some t \<Longrightarrow> wf t"
    and "(if fl then
            (case sc of None \<Rightarrow> Inl TypeError
             | Some scale \<Rightarrow> bindE (tmul z2 scale) (\<lambda>z2.
                 bindE (logdet_of_scale scale z1) (\<lambda>logdet. Inr (z2, logdet))))
          else bindE (size_at z1 0) (\<lambda>b. Inr (z2, new_zeros [b]))) = Inr (z2', l)"
  shows "wf z2'"
proof (cases fl)
  case True
  with assms(3) obtain scale where sc: "sc = Some scale" and
    r: "bindE (tmul z2 scale) (\<lambda>z2.
          bindE (logdet_of_scale scale z1) (\<lambda>logdet. Inr (z2, logdet))) = Inr (z2', l)"
    by (cases sc) simp_all
  from r have "binop (*) z2 scale = Inr z2'"
    unfolding bindE_Inr_iff tmul_def by auto
  then show ?thesis using binop_wf [OF assms(1) assms(2) [OF sc]] by simp
next
  case False
  with assms(3) have "z2' = z2" by (auto simp: bindE_Inr_iff)
  with assms(1) show ?thesis by simp
qed

lemma NICE_forward_frame:
  assumes "wf input" "dims input = b # c # rest" "NICE.z1_channels self \<le> c"
    and "returns_wf (net self)" "NICE_forward self input s = Inr (out, logdet)"
  shows "slice_to (NICE.z1_channels self) out = slice_to (NICE.z1_channels self) input"
proof -
  from assms(5) obtain z1 z2 p q z2'' where
    z1: "slice_to (NICE.z1_channels self) input = Inr z1" and
    z2: "slice_from (NICE.z1_channels self) input = Inr z2" and
    ms: "calc_mu_and_scale self z1 s = Inr p" and
    sc: "(if scale_flag self then
            (case snd p of None \<Rightarrow> Inl TypeError
             | Some scale \<Rightarrow> bindE (tmul z2 scale) (\<lambda>z2.
                 bindE (logdet_of_scale scale z1) (\<lambda>logdet. Inr (z2, logdet))))
          else bindE (size_at z1 0) (\<lambda>b. Inr (z2, new_zeros [b]))) = Inr q" and
    ad: "tadd (fst q) (fst p) = Inr z2''" and ct: "cat1 z1 z2'' = Inr out"
    unfolding NICE_forward_def bindE_Inr_iff case_prod_beta
    by auto
  have ms': "calc_mu_and_scale self z1 s = Inr (fst p, snd p)" using ms by simp
  have w2: "wf z2" using wf_slice_from [OF assms(1) z2] .
  have "wf (fst q)"
    using scaled_wf [OF w2 calc_mu_and_scale_wf(2) [OF assms(4) ms'], of "snd p" "scale_flag self" z1 "fst q" "snd q"]
      sc by simp
  then have "wf z2''"
    using ad binop_wf [OF _ calc_mu_and_scale_wf(1) [OF assms(4) ms']] by (simp add: tadd_def)
  then show ?thesis
    using retained_after_cat1 [OF assms(1,2,3) z1 _ ct] by simp
qed


lemma unscaled_wf:
  assumes "wf z2" "\<And>t. sc = Some t \<Longrightarrow> wf t"
    and "(if fl then
            (case sc of None \<Rightarrow> Inl TypeError
             | Some scale \<Rightarrow> bindE (tdiv z2 (add_scalar scale (1 / 10 ^ 12))) (\<lambda>z2.
                 bindE (logdet_of_scale scale z1) (\<lambda>l. Inr (z2, mul_scalar l (- 1.0)))))
          else bindE (size_at z1 0) (\<lambda>b. Inr (z2, new_zeros [b]))) = Inr (z2', l)"
  shows "wf z2'"
proof (cases fl)
  case True
  with assms(3) obtain scale where sc: "sc = Some scale" and
    r: "bindE (tdiv z2 (add_scalar scale (1 / 10 ^ 12))) (\<lambda>z2.
          bindE (logdet_of_scale scale z1) (\<lambda>l. Inr (z2, mul_scalar l (- 1.0)))) = Inr (z2', l)"
    by (cases sc) simp_all
  from r have "binop (/) z2 (add_scalar scale (1 / 10 ^ 12)) = Inr z2'"
    unfolding bindE_Inr_iff tdiv_def by auto
  then show ?thesis using binop_wf [OF assms(1), of "add_scalar scale (1 / 10 ^ 12)"] assms(2) [OF sc]
    by simp
next
  case False
  with assms(3) have "z2' = z2" by (auto simp: bindE_Inr_iff)
  with assms(1) show ?thesis by simp
qed

lemma NICE_backward_frame:
  assumes "wf input" "dims input = b # c # rest" "NICE.z1_channels self \<le> c"
    and "returns_wf (net self)" "NICE_backward self input s = Inr (out, logdet)"
  shows "slice_to (NICE.z1_channels self) out = slice_to (NICE.z1_channels self) input"
proof -
  from assms(5) obtain z1 z2 p z2' q where
    z1: "slice_to (NICE.z1_channels self) input = Inr z1" and
    z2: "slice_from (NICE.z1_channels self) input = Inr z2" and
    ms: "calc_mu_and_scale self z1 s = Inr p" and
    sb: "tsub z2 (fst p) = Inr z2'" and
    sc: "(if scale_flag self then
            (case snd p of None \<Rightarrow> Inl TypeError
             | Some scale \<Rightarrow> bindE (tdiv z2' (add_scalar scale (1 / 10 ^ 12))) (\<lambda>z2.
                 bindE (logdet_of_scale scale z1) (\<lambda>l. Inr (z2, mul_scalar l (- 1.0)))))
          else bindE (size_at z1 0) (\<lambda>b. Inr (z2', new_zeros [b]))) = Inr q" and
    ct: "cat1 z1 (fst q) = Inr out"
    unfolding NICE_backward_def bindE_Inr_iff case_prod_beta
    by auto
  have ms': "calc_mu_and_scale self z1 s = Inr (fst p, snd p)" using ms by simp
  have w2: "wf z2" using wf_slice_from [OF assms(1) z2] .
  have w2': "wf z2'"
    using sb binop_wf [OF w2 calc_mu_and_scale_wf(1) [OF assms(4) ms']] by (simp add: tsub_def)
  have "wf (fst q)"
    using unscaled_wf [OF w2' calc_mu_and_scale_wf(2) [OF assms(4) ms'], of "snd p" "scale_flag self" z1 "fst q" "snd q"]
      sc by simp
  then show ?thesis
    using retained_after_cat1 [OF assms(1,2,3) z1 _ ct] by simp
qed

lemma NICE_init_frame:
  assumes "wf input" "dims input = b # c # rest" "NICE.z1_channels self \<le> c"
    and "returns_wf (net self)" "NICE_init self input s isc = Inr (out, logdet)"
  shows "slice_to (NICE.z1_channels self) out = slice_to (NICE.z1_channels self) input"
proof -
  from assms(5) obtain z1 z2 p q z2'' where
    z1: "slice_to (NICE.z1_channels self) input = Inr z1" and
    z2: "slice_from (NICE.z1_channels self) input = Inr z2" and
    ms: "init_net self z1 s isc = Inr p" and
    sc: "(if scale_flag self then
            (case snd p of None \<Rightarrow> Inl TypeError
             | Some scale \<Rightarrow> bindE (tmul z2 scale) (\<lambda>z2.
                 bindE (logdet_of_scale scale z1) (\<lambda>logdet. Inr (z2, logdet))))
          else bindE (size_at z1 0) (\<lambda>b. Inr (z2, new_zeros [b]))) = Inr q" and
    ad: "tadd (fst q) (fst p) = Inr z2''" and ct: "cat1 z1 z2'' = Inr out"
    unfolding NICE_init_def bindE_Inr_iff case_prod_beta
    by auto
  have ms': "init_net self z1 s isc = Inr (fst p, snd p)" using ms by simp
  have w2: "wf z2" using wf_slice_from [OF assms(1) z2] .
  have "wf (fst q)"
    using scaled_wf [OF w2 init_net_wf(2) [OF assms(4) ms'], of "snd p" "scale_flag self" z1 "fst q" "snd q"]
      sc by simp
  then have "wf z2''"
    using ad binop_wf [OF _ init_net_wf(1) [OF assms(4) ms']] by (simp add: tadd_def)
  then show ?thesis
    using retained_after_cat1 [OF assms(1,2,3) z1 _ ct] by simp
qed

text \<open>
  C10. For a well-formed input with at least \<open>z1_channels\<close> channels, whenever
  \<open>NICE.forward\<close>, \<open>NICE.backward\<close> or \<open>NICE.init\<close> returns, the first
  \<open>z1_channels\<close> channels of its output are those of its input.
\<close>

theorem NICE_retained_channels:
  assumes "wf input" and "dims input = b # c # rest" and "NICE.z1_channels self \<le> c"
    and "returns_wf (net self)"
  shows "(\<forall>out logdet. NICE_forward self input s = Inr (out, logdet) \<longrightarrow>
            slice_to (NICE.z1_channels self) out = slice_to (NICE.z1_channels self) input) \<and>
         (\<forall>out logdet. NICE_backward self input s = Inr (out, logdet) \<longrightarrow>
            slice_to (NICE.z1_channels self) out = slice_to (NICE.z1_channels self) input) \<and>
         (\<forall>out logdet. NICE_init self input s init_scale = Inr (out, logdet) \<longrightarrow>
            slice_to (NICE.z1_channels self) out = slice_to (NICE.z1_channels self) input)"
  using NICE_forward_frame [OF assms] NICE_backward_frame [OF assms] NICE_init_frame [OF assms]
  by blast


lemma logdet_of_scale_value:
  assumes "dims z1 = b # k # rest" "dims scale = b # c2 # rest" "0 < b" "wf scale"
  shows "logdet_of_scale scale z1 =
         Inr \<lparr>dims = [b],
              elems = map (\<lambda>i. \<Sum>v\<leftarrow>sample (c2 * prod_list rest) scale i. ln v) [0..<b]\<rparr>"
proof -
  let ?d = "c2 * prod_list rest"
  let ?v = "\<lparr>dims = [b, ?d], elems = map ln (elems scale)\<rparr>"
  have v: "view_infer (tmap ln scale) b = Inr ?v"
    using assms(2,3) by (simp add: view_infer_def tmap_def)
  have w: "wf ?v" using assms(2,4) by (simp add: wf_def)
  have "map sum_list (rows b ?d (map ln (elems scale))) =
        map (\<lambda>i. \<Sum>v\<leftarrow>sample ?d scale i. ln v) [0..<b]"
    by (simp add: rows_def sample_def take_map drop_map)
  then show ?thesis
    using sum_dim1_2d [of ?v b ?d] w assms(1)
    by (simp add: logdet_of_scale_def size_at_def v)
qed

lemma cat1_value:
  "dims a = n # ca # r \<Longrightarrow> dims b = n # cb # r \<Longrightarrow>
   cat1 a b = Inr \<lparr>dims = n # (ca + cb) # r,
                   elems = concat (map2 (@) (rows n (ca * prod_list r) (elems a))
                                            (rows n (cb * prod_list r) (elems b)))\<rparr>"
  by (simp add: cat1_def)

lemma NICE_backward_explicit:
  assumes "scale_flag self"
    and "slice_to (NICE.z1_channels self) input = Inr z1"
    and "slice_from (NICE.z1_channels self) input = Inr z2"
    and "calc_mu_and_scale self z1 s = Inr (mu, Some scale)"
    and "wf z2" "wf mu" "wf scale" "dims mu = dims z2" "dims scale = dims z2"
    and "logdet_of_scale scale z1 = Inr l"
  shows "NICE_backward self input s =
         bindE (cat1 z1 \<lparr>dims = dims z2,
                         elems = map2 (/) (map2 (-) (elems z2) (elems mu))
                                          (map (\<lambda>v. v + 1 / 10 ^ 12) (elems scale))\<rparr>)
           (\<lambda>out. Inr (out, mul_scalar l (- 1.0)))"
proof -
  let ?d = "\<lparr>dims = dims z2, elems = map2 (-) (elems z2) (elems mu)\<rparr>"
  have sb: "tsub z2 mu = Inr ?d"
    using binop_same [OF assms(5,6), of "(-)"] assms(8) by (simp add: tsub_def)
  have wd: "wf ?d" using assms(5,6,8) by (simp add: wf_def)
  have ws: "wf (add_scalar scale (1 / 10 ^ 12))" using assms(7) by simp
  have dv: "tdiv ?d (add_scalar scale (1 / 10 ^ 12)) =
      Inr \<lparr>dims = dims z2, elems = map2 (/) (map2 (-) (elems z2) (elems mu))
                                          (map (\<lambda>v. v + 1 / 10 ^ 12) (elems scale))\<rparr>"
    using binop_same [OF wd ws, of "(/)"] assms(9) by (simp add: tdiv_def add_scalar_def)
  show ?thesis
    unfolding NICE_backward_def
    by (simp only: assms(1,2,3,4,10) bindE_simps prod.case sb dv if_True option.case)
qed

lemma NICE_forward_explicit:
  assumes "scale_flag self"
    and "slice_to (NICE.z1_channels self) input = Inr z1"
    and "slice_from (NICE.z1_channels self) input = Inr z2"
    and "calc_mu_and_scale self z1 s = Inr (mu, Some scale)"
    and "wf z2" "wf mu" "wf scale" "dims mu = dims z2" "dims scale = dims z2"
    and "logdet_of_scale scale z1 = Inr l"
  shows "NICE_forward self input s =
         bindE (cat1 z1 \<lparr>dims = dims z2,
                         elems = map2 (+) (map2 (*) (elems z2) (elems scale)) (elems mu)\<rparr>)
           (\<lambda>out. Inr (out, l))"
proof -
  let ?m = "\<lparr>dims = dims z2, elems = map2 (*) (elems z2) (elems scale)\<rparr>"
  have ml: "tmul z2 scale = Inr ?m"
    using binop_same [OF assms(5,7), of "(*)"] assms(9) by (simp add: tmul_def)
  have wm: "wf ?m" using assms(5,7,9) by (simp add: wf_def)
  have ad: "tadd ?m mu =
      Inr \<lparr>dims = dims z2, elems = map2 (+) (map2 (*) (elems z2) (elems scale)) (elems mu)\<rparr>"
    using binop_same [OF wm assms(6), of "(+)"] assms(8) by (simp add: tadd_def)
  show ?thesis
    unfolding NICE_forward_def
    by (simp only: assms(1,2,3,4,10) bindE_simps prod.case ml ad if_True option.case)
qed


lemmas tensor_eval =
  slice_to_def slice_from_def cat1_def chunk2_def rows_def tmap_def add_scalar_def mul_scalar_def
  size_at_def view_infer_def sum_dim1_def binop_def tadd_def tsub_def tmul_def tdiv_def
  pad_dims_def new_zeros_def wf_def upt_conv_Cons Let_def

lemma coupling_example_ctor:
  "NICE_ctor (\<lambda>i out h sc d p. coupling_net ls) 2 None None True False 1 0 2 = Inr (coupling_example ls)"
  by (simp add: NICE_ctor_def coupling_example_def)

lemma coupling_example_mu_scale:
  "calc_mu_and_scale (coupling_example (- 2)) \<lparr>dims = [1, 1, 1, 1], elems = [3]\<rparr> None =
   Inr (\<lparr>dims = [1, 1, 1, 1], elems = [3]\<rparr>, Some \<lparr>dims = [1, 1, 1, 1], elems = [1 / 2]\<rparr>)"
  by (simp add: calc_mu_and_scale_def NICEBlock_forward_def coupling_example_def coupling_net_def
      elu_def sigmoid_def tensor_eval)

lemma coupling_example_forward:
  "NICE_forward (coupling_example (- 2)) \<lparr>dims = [1, 2, 1, 1], elems = [3, 5]\<rparr> None =
   Inr (\<lparr>dims = [1, 2, 1, 1], elems = [3, 11 / 2]\<rparr>, \<lparr>dims = [1], elems = [ln (1 / 2)]\<rparr>)"
  unfolding NICE_forward_def
  by (simp add: coupling_example_mu_scale [unfolded coupling_example_def, simplified] coupling_example_def
      logdet_of_scale_def tensor_eval)

lemma coupling_example_backward:
  "NICE_backward (coupling_example (- 2)) \<lparr>dims = [1, 2, 1, 1], elems = [3, 11 / 2]\<rparr> None =
   Inr (\<lparr>dims = [1, 2, 1, 1], elems = [3, (5 / 2) / (1 / 2 + 1 / 10 ^ 12)]\<rparr>,
        \<lparr>dims = [1], elems = [- ln (1 / 2)]\<rparr>)"
  unfolding NICE_backward_def
  by (simp add: coupling_example_mu_scale [unfolded coupling_example_def, simplified] coupling_example_def
      logdet_of_scale_def tensor_eval)

lemma sigmoid_minus_40: "0 < sigmoid (- 40)" "sigmoid (- 40) < 1 / 10 ^ 12"
proof -
  have "(2::real) \<le> exp 1" using exp_ge_add_one_self [of "1::real"] by simp
  then have "(2::real) ^ 40 \<le> exp 1 ^ 40" by (intro power_mono) simp_all
  also have "exp (1::real) ^ 40 = exp 40" using exp_of_nat_mult [of 40 "1::real"] by simp
  finally have "(10::real) ^ 12 < 1 + exp 40" by simp
  then show "sigmoid (- 40) < 1 / 10 ^ 12"
    unfolding sigmoid_def by (simp add: field_simps)
  show "0 < sigmoid (- 40)"
    unfolding sigmoid_def by (simp add: add_pos_pos)
qed

lemma coupling_example_small_scale:
  "calc_mu_and_scale (coupling_example (- 42)) \<lparr>dims = [1, 1, 1, 1], elems = [3]\<rparr> None =
   Inr (\<lparr>dims = [1, 1, 1, 1], elems = [3]\<rparr>, Some \<lparr>dims = [1, 1, 1, 1], elems = [sigmoid (- 40)]\<rparr>)"
  by (simp add: calc_mu_and_scale_def NICEBlock_forward_def coupling_example_def coupling_net_def
      elu_def tensor_eval)

lemma coupling_example_small_backward:
  "NICE_backward (coupling_example (- 42)) \<lparr>dims = [1, 2, 1, 1], elems = [3, 11 / 2]\<rparr> None =
   Inr (\<lparr>dims = [1, 2, 1, 1], elems = [3, (5 / 2) / (sigmoid (- 40) + 1 / 10 ^ 12)]\<rparr>,
        \<lparr>dims = [1], elems = [- ln (sigmoid (- 40))]\<rparr>)"
  unfolding NICE_backward_def
  by (simp add: coupling_example_small_scale [unfolded coupling_example_def, simplified] coupling_example_def
      logdet_of_scale_def tensor_eval)


lemma wf_cat1:
  assumes "wf a" "wf b" "cat1 a b = Inr t"
  shows "wf t"
proof -
  from assms(3) obtain n ca r where "dims a = n # ca # r"
    by (auto simp: cat1_def split: list.splits)
  then show ?thesis using slices_of_cat1(3) [OF assms] by simp
qed

lemma returns_wf_coupling_net: "returns_wf (coupling_net ls)"
  unfolding returns_wf_def coupling_net_def
  by (auto split: if_splits intro: wf_cat1 [rotated 2])

lemma slice_from_dims:
  "dims t = b # c # rest \<Longrightarrow> slice_from k t = Inr z \<Longrightarrow> dims z = b # (c - k) # rest"
  by (auto simp: slice_from_def)

text \<open>
  C9, as amended. With \<open>scale=True\<close>, \<open>NICE.backward\<close> returns, and the transformed
  channels of its output are \<open>(z2 - mu) / (scale + 1e-12)\<close>, entry by entry: the
  divisor of the coupling flow carries the additive epsilon.
\<close>

theorem NICE_backward_divisor:
  assumes "scale_flag self"
    and "wf input" and "dims input = b # c # rest" and "0 < b" and "NICE.z1_channels self \<le> c"
    and "slice_to (NICE.z1_channels self) input = Inr z1"
    and "slice_from (NICE.z1_channels self) input = Inr z2"
    and "calc_mu_and_scale self z1 s = Inr (mu, Some scale)"
    and "wf mu" and "wf scale" and "dims mu = dims z2" and "dims scale = dims z2"
  shows "\<exists>out logdet. NICE_backward self input s = Inr (out, logdet) \<and>
           slice_to (NICE.z1_channels self) out = Inr z1 \<and>
           slice_from (NICE.z1_channels self) out =
             Inr \<lparr>dims = dims z2,
                  elems = map2 (/) (map2 (-) (elems z2) (elems mu))
                                   (map (\<lambda>v. v + 1 / 10 ^ 12) (elems scale))\<rparr>"
proof -
  let ?k = "NICE.z1_channels self"
  let ?Z = "\<lparr>dims = dims z2,
                  elems = map2 (/) (map2 (-) (elems z2) (elems mu))
                                   (map (\<lambda>v. v + 1 / 10 ^ 12) (elems scale))\<rparr>"
  have d1: "dims z1 = b # ?k # rest" using slice_to_dims [OF assms(3,5,6)] .
  have d2: "dims z2 = b # (c - ?k) # rest" using slice_from_dims [OF assms(3,7)] .
  have w1: "wf z1" using wf_slice_to [OF assms(2,6)] .
  have w2: "wf z2" using wf_slice_from [OF assms(2,7)] .
  have wZ: "wf ?Z" using w2 assms(9,10,11,12) by (simp add: wf_def)
  obtain l where l: "logdet_of_scale scale z1 = Inr l"
    using logdet_of_scale_value [OF d1 _ assms(4,10), of "c - ?k"] assms(12) d2 by simp
  obtain out where out: "cat1 z1 ?Z = Inr out"
    using cat1_value [OF d1, of ?Z "c - ?k"] d2 by simp
  have "NICE_backward self input s = Inr (out, mul_scalar l (- 1.0))"
    using NICE_backward_explicit [OF assms(1,6,7,8) w2 assms(9,10,11,12) l] out by simp
  moreover note slices_of_cat1(1,2) [OF w1 wZ out d1]
  ultimately show ?thesis by blast
qed

theorem NICE_backward_divisor_witness:
  "NICE_backward (coupling_example (- 42)) \<lparr>dims = [1, 2, 1, 1], elems = [3, 11 / 2]\<rparr> None =
     Inr (\<lparr>dims = [1, 2, 1, 1], elems = [3, (5 / 2) / (sigmoid (- 40) + 1 / 10 ^ 12)]\<rparr>,
          \<lparr>dims = [1], elems = [- ln (sigmoid (- 40))]\<rparr>) \<and>
   slice_from 1 \<lparr>dims = [1, 2, 1, 1], elems = [3, (5 / 2) / (sigmoid (- 40) + 1 / 10 ^ 12)]\<rparr> =
     Inr \<lparr>dims = [1, 1, 1, 1], elems = [(11 / 2 - 3) / (sigmoid (- 40) + 1 / 10 ^ 12)]\<rparr>"
proof -
  let ?Y = "\<lparr>dims = [1, 2, 1, 1], elems = [3, 11 / 2]\<rparr>"
  have "\<exists>out logdet. NICE_backward (coupling_example (- 42)) ?Y None = Inr (out, logdet) \<and>
          slice_to (NICE.z1_channels (coupling_example (- 42))) out =
            Inr \<lparr>dims = [1, 1, 1, 1], elems = [3]\<rparr> \<and>
          slice_from (NICE.z1_channels (coupling_example (- 42))) out =
            Inr \<lparr>dims = dims \<lparr>dims = [1, 1, 1, 1], elems = [11 / 2]\<rparr>,
                 elems = map2 (/) (map2 (-) (elems \<lparr>dims = [1, 1, 1, 1], elems = [11 / 2]\<rparr>)
                                            (elems \<lparr>dims = [1, 1, 1, 1], elems = [3]\<rparr>))
                            (map (\<lambda>v. v + 1 / 10 ^ 12) (elems \<lparr>dims = [1, 1, 1, 1], elems = [sigmoid (- 40)]\<rparr>))\<rparr>"
    by (rule NICE_backward_divisor [where b = 1 and c = 2 and rest = "[1, 1]"
          and mu = "\<lparr>dims = [1, 1, 1, 1], elems = [3]\<rparr>"])
       (simp_all add: coupling_example_small_scale [unfolded coupling_example_def, simplified]
          coupling_example_def [of "- 42"] tensor_eval)
  then show ?thesis
    by (auto simp: coupling_example_small_backward [unfolded coupling_example_def, simplified]
        coupling_example_def [of "- 42"])
qed

text \<open>
  C9, as stated, fails: with a learned log-scale of \<open>-42\<close> the scale is
  \<open>sigmoid (-40)\<close>, a positive number below \<open>1e-12\<close>, and for \<open>z2 = 11/2\<close>, \<open>mu = 3\<close>
  the coupling flow's backward returns \<open>(z2 - mu) / (scale + 1e-12)\<close>, which is less
  than half of \<open>(z2 - mu) / scale\<close>: the epsilon dominates the divisor.
\<close>

theorem coupling_backward_epsilon_counterexample:
  "NICE_backward (coupling_example (- 42)) \<lparr>dims = [1, 2, 1, 1], elems = [3, 11 / 2]\<rparr> None =
     Inr (\<lparr>dims = [1, 2, 1, 1], elems = [3, (11 / 2 - 3) / (sigmoid (- 40) + 1 / 10 ^ 12)]\<rparr>,
          \<lparr>dims = [1], elems = [- ln (sigmoid (- 40))]\<rparr>) \<and>
   calc_mu_and_scale (coupling_example (- 42)) \<lparr>dims = [1, 1, 1, 1], elems = [3]\<rparr> None =
     Inr (\<lparr>dims = [1, 1, 1, 1], elems = [3]\<rparr>, Some \<lparr>dims = [1, 1, 1, 1], elems = [sigmoid (- 40)]\<rparr>) \<and>
   0 < sigmoid (- 40) \<and> sigmoid (- 40) < 1 / 10 ^ 12 \<and>
   (11 / 2 - 3) / (sigmoid (- 40) + 1 / 10 ^ 12) < (11 / 2 - 3) / sigmoid (- 40) / 2"
proof -
  have "(11 / 2 - 3) / (sigmoid (- 40) + 1 / 10 ^ 12) < (11 / 2 - 3) / sigmoid (- 40) / 2"
    using sigmoid_minus_40 by (simp add: field_simps)
  then show ?thesis
    using coupling_example_small_backward coupling_example_small_scale sigmoid_minus_40 by simp
qed

theorem NICE_retained_channels_witness:
  "NICE_forward (coupling_example (- 2)) \<lparr>dims = [1, 2, 1, 1], elems = [3, 5]\<rparr> None =
     Inr (\<lparr>dims = [1, 2, 1, 1], elems = [3, 11 / 2]\<rparr>, \<lparr>dims = [1], elems = [ln (1 / 2)]\<rparr>) \<and>
   slice_to 1 \<lparr>dims = [1, 2, 1, 1], elems = [3, 11 / 2]\<rparr> =
     slice_to 1 \<lparr>dims = [1, 2, 1, 1], elems = [3, 5]\<rparr>"
proof -
  let ?X = "\<lparr>dims = [1, 2, 1, 1], elems = [3, 5]\<rparr>"
  have 1: "wf ?X" by (simp add: wf_def)
  have 2: "dims ?X = 1 # 2 # [1, 1]" by simp
  have 3: "NICE.z1_channels (coupling_example (- 2)) \<le> 2" by (simp add: coupling_example_def)
  have 4: "returns_wf (net (coupling_example (- 2)))"
    by (simp add: coupling_example_def returns_wf_coupling_net)
  from NICE_retained_channels [OF 1 2 3 4, of None 1] coupling_example_forward
  show ?thesis by (simp add: coupling_example_def)
qed

lemma bindE_assoc: "bindE (bindE m f) g = bindE m (\<lambda>x. bindE (f x) g)"
  by (cases m) simp_all

lemma MaCowUnit_forward_in_sequence:
  "MaCowUnit_forward E u x s = in_sequence (unit_stages (e_forward E) u s) x"
  by (simp add: MaCowUnit_forward_def unit_stages_def)

lemma MaCowUnit_backward_in_sequence:
  "MaCowUnit_backward E u x s = in_sequence (rev (unit_stages (e_backward E) u s)) x"
  by (simp add: MaCowUnit_backward_def unit_stages_def)

lemma MaCowUnit_ctor_flows:
  assumes "MaCowUnit_ctor p c ks sc scale iv = Inr u"
  shows "\<exists>k0 k1 rest. ks = k0 # k1 # rest \<and>
           [actnorm1 u, conv1 u, conv2 u, actnorm2 u, conv3 u, conv4 u] =
           [ActNorm2dFlow (p @ [Attr ''actnorm1'']) c iv,
            MaskedConvFlow (p @ [Attr ''conv1'']) c (k0, k1) sc ''A'' scale iv,
            MaskedConvFlow (p @ [Attr ''conv2'']) c (k0, k1) sc ''B'' scale iv,
            ActNorm2dFlow (p @ [Attr ''actnorm2'']) c iv,
            MaskedConvFlow (p @ [Attr ''conv3'']) c (k1, k0) sc ''C'' scale iv,
            MaskedConvFlow (p @ [Attr ''conv4'']) c (k1, k0) sc ''D'' scale iv]"
proof -
  from assms obtain k0 k1 where k: "index_at ks 0 = Inr k0" "index_at ks 1 = Inr k1"
    unfolding MaCowUnit_ctor_def bindE_Inr_iff by auto
  then obtain rest where "ks = k0 # k1 # rest"
    by (cases ks; cases "tl ks") (auto simp: index_at_def split: if_splits)
  with assms k show ?thesis
    by (auto simp: MaCowUnit_ctor_def index_at_def)
qed

lemma MaCowStep_ctor_units:
  assumes "MaCowStep_ctor p c ks h sc scale iv ct sl nh pe dr = Inr st"
  shows "\<exists>u0 u1. units st = [u0, u1] \<and>
           MaCowUnit_ctor (p @ [Attr ''units'', Idx 0]) c ks sc scale iv = Inr u0 \<and>
           MaCowUnit_ctor (p @ [Attr ''units'', Idx 1]) c ks sc scale iv = Inr u1 \<and>
           glow_step st = GlowStep (p @ [Attr ''glow_step'']) c h sc scale iv ct sl nh pe dr"
proof -
  have two: "[0..<2] = [0, Suc 0]" by (simp add: upt_conv_Cons)
  from assms show ?thesis
    unfolding MaCowStep_ctor_def Let_def two mapE.simps bindE_Inr_iff
    by auto
qed

lemma MaCowStep_forward_in_sequence:
  assumes "units st = [u0, u1]"
  shows "MaCowStep_forward E st x s =
         bindE (size_at x 0) (\<lambda>b.
           in_sequence_from (new_zeros [b])
             [(\<lambda>x. MaCowUnit_forward E u0 x s), (\<lambda>x. MaCowUnit_forward E u1 x s),
              (\<lambda>x. e_forward E (glow_step st) x s)] x)"
  unfolding MaCowStep_forward_def assms
  by (simp add: bindE_assoc split_def)

lemma MaCowStep_backward_in_sequence:
  assumes "units st = [u0, u1]"
  shows "MaCowStep_backward E st x s =
         in_sequence
           [(\<lambda>x. e_backward E (glow_step st) x s), (\<lambda>x. MaCowUnit_backward E u1 x s),
            (\<lambda>x. MaCowUnit_backward E u0 x s)] x"
  unfolding MaCowStep_backward_def assms
  by (simp add: bindE_assoc split_def)


text \<open>
  C7. The unit that \<open>MaCowUnit.__init__\<close> builds holds, in the order of application, a
  normalization, the masked convolutions of orders A and B with the kernel
  \<open>(k0, k1)\<close>, a second normalization, and the masked convolutions of orders C and D
  with the transposed kernel \<open>(k1, k0)\<close>. Its \<open>forward\<close> applies these six in that
  order and adds up their log-determinants; its \<open>backward\<close> applies the six inverses
  in the reverse order. The step that \<open>MaCowStep.__init__\<close> builds holds exactly two
  such units and one Glow step; its \<open>forward\<close> runs the two units and then the Glow
  step, its \<open>backward\<close> the Glow step and then the units in reverse.
\<close>

theorem unit_and_step_structure:
  "(MaCowUnit_ctor p c ks sc scale iv = Inr u \<longrightarrow>
      (\<exists>k0 k1 rest. ks = k0 # k1 # rest \<and>
         [actnorm1 u, conv1 u, conv2 u, actnorm2 u, conv3 u, conv4 u] =
         [ActNorm2dFlow (p @ [Attr ''actnorm1'']) c iv,
          MaskedConvFlow (p @ [Attr ''conv1'']) c (k0, k1) sc ''A'' scale iv,
          MaskedConvFlow (p @ [Attr ''conv2'']) c (k0, k1) sc ''B'' scale iv,
          ActNorm2dFlow (p @ [Attr ''actnorm2'']) c iv,
          MaskedConvFlow (p @ [Attr ''conv3'']) c (k1, k0) sc ''C'' scale iv,
          MaskedConvFlow (p @ [Attr ''conv4'']) c (k1, k0) sc ''D'' scale iv]) \<and>
      MaCowUnit_forward E u x s = in_sequence (unit_stages (e_forward E) u s) x \<and>
      MaCowUnit_backward E u x s = in_sequence (rev (unit_stages (e_backward E) u s)) x) \<and>
   (MaCowStep_ctor p c ks h sc scale iv ct sl nh pe dr = Inr st \<longrightarrow>
      (\<exists>u0 u1. units st = [u0, u1] \<and>
         MaCowUnit_ctor (p @ [Attr ''units'', Idx 0]) c ks sc scale iv = Inr u0 \<and>
         MaCowUnit_ctor (p @ [Attr ''units'', Idx 1]) c ks sc scale iv = Inr u1 \<and>
         glow_step st = GlowStep (p @ [Attr ''glow_step'']) c h sc scale iv ct sl nh pe dr \<and>
         MaCowStep_forward E st x s =
           bindE (size_at x 0) (\<lambda>b.
             in_sequence_from (new_zeros [b])
               [(\<lambda>x. MaCowUnit_forward E u0 x s), (\<lambda>x. MaCowUnit_forward E u1 x s),
                (\<lambda>x. e_forward E (glow_step st) x s)] x) \<and>
         MaCowStep_backward E st x s =
           in_sequence
             [(\<lambda>x. e_backward E (glow_step st) x s), (\<lambda>x. MaCowUnit_backward E u1 x s),
              (\<lambda>x. MaCowUnit_backward E u0 x s)] x))"
proof (intro conjI impI)
  assume "MaCowUnit_ctor p c ks sc scale iv = Inr u"
  then show "\<exists>k0 k1 rest. ks = k0 # k1 # rest \<and>
         [actnorm1 u, conv1 u, conv2 u, actnorm2 u, conv3 u, conv4 u] =
         [ActNorm2dFlow (p @ [Attr ''actnorm1'']) c iv,
          MaskedConvFlow (p @ [Attr ''conv1'']) c (k0, k1) sc ''A'' scale iv,
          MaskedConvFlow (p @ [Attr ''conv2'']) c (k0, k1) sc ''B'' scale iv,
          ActNorm2dFlow (p @ [Attr ''actnorm2'']) c iv,
          MaskedConvFlow (p @ [Attr ''conv3'']) c (k1, k0) sc ''C'' scale iv,
          MaskedConvFlow (p @ [Attr ''conv4'']) c (k1, k0) sc ''D'' scale iv]"
    by (rule MaCowUnit_ctor_flows)
next
  show "MaCowUnit_forward E u x s = in_sequence (unit_stages (e_forward E) u s) x"
    by (rule MaCowUnit_forward_in_sequence)
next
  show "MaCowUnit_backward E u x s = in_sequence (rev (unit_stages (e_backward E) u s)) x"
    by (rule MaCowUnit_backward_in_sequence)
next
  assume "MaCowStep_ctor p c ks h sc scale iv ct sl nh pe dr = Inr st"
  from MaCowStep_ctor_units [OF this] obtain u0 u1 where
    u: "units st = [u0, u1]"
      "MaCowUnit_ctor (p @ [Attr ''units'', Idx 0]) c ks sc scale iv = Inr u0"
      "MaCowUnit_ctor (p @ [Attr ''units'', Idx 1]) c ks sc scale iv = Inr u1"
      "glow_step st = GlowStep (p @ [Attr ''glow_step'']) c h sc scale iv ct sl nh pe dr"
    by blast
  show "\<exists>u0 u1. units st = [u0, u1] \<and>
         MaCowUnit_ctor (p @ [Attr ''units'', Idx 0]) c ks sc scale iv = Inr u0 \<and>
         MaCowUnit_ctor (p @ [Attr ''units'', Idx 1]) c ks sc scale iv = Inr u1 \<and>
         glow_step st = GlowStep (p @ [Attr ''glow_step'']) c h sc scale iv ct sl nh pe dr \<and>
         MaCowStep_forward E st x s =
           bindE (size_at x 0) (\<lambda>b.
             in_sequence_from (new_zeros [b])
               [(\<lambda>x. MaCowUnit_forward E u0 x s), (\<lambda>x. MaCowUnit_forward E u1 x s),
                (\<lambda>x. e_forward E (glow_step st) x s)] x) \<and>
         MaCowStep_backward E st x s =
           in_sequence
             [(\<lambda>x. e_backward E (glow_step st) x s), (\<lambda>x. MaCowUnit_backward E u1 x s),
              (\<lambda>x. MaCowUnit_backward E u0 x s)] x"
    using u MaCowStep_forward_in_sequence [OF u(1)] MaCowStep_backward_in_sequence [OF u(1)]
    by blast
qed

lemma example_unit_ctor: "MaCowUnit_ctor p c [3, 5] 0 True False = Inr (example_unit p c)"
  by (simp add: MaCowUnit_ctor_def example_unit_def index_at_def)

lemma example_step_ctor:
  "MaCowStep_ctor p c [3, 5] 8 0 True False ''conv'' None 1 True 0 = Inr (example_step p c)"
  by (simp add: MaCowStep_ctor_def example_step_def example_unit_ctor upt_conv_Cons)

theorem unit_and_step_structure_witness:
  "MaCowUnit_ctor [] 4 [3, 5] 0 True False = Inr (example_unit [] 4) \<and>
   MaCowUnit_forward plain_externals (example_unit [] 4) \<lparr>dims = [1, 4, 1, 1], elems = [1, 2, 3, 4]\<rparr> None =
     in_sequence (unit_stages (e_forward plain_externals) (example_unit [] 4) None)
       \<lparr>dims = [1, 4, 1, 1], elems = [1, 2, 3, 4]\<rparr> \<and>
   MaCowUnit_backward plain_externals (example_unit [] 4) \<lparr>dims = [1, 4, 1, 1], elems = [1, 2, 3, 4]\<rparr> None =
     in_sequence (rev (unit_stages (e_backward plain_externals) (example_unit [] 4) None))
       \<lparr>dims = [1, 4, 1, 1], elems = [1, 2, 3, 4]\<rparr> \<and>
   MaCowStep_ctor [] 4 [3, 5] 8 0 True False ''conv'' None 1 True 0 = Inr (example_step [] 4) \<and>
   length (units (example_step [] 4)) = 2"
  using unit_and_step_structure [of "[]" 4 "[3, 5]" 0 True False "example_unit [] 4"
      plain_externals "\<lparr>dims = [1, 4, 1, 1], elems = [1, 2, 3, 4]\<rparr>" None 8 "''conv''" None 1 True 0
      "example_step [] 4"]
    example_unit_ctor [of "[]" 4] example_step_ctor [of "[]" 4]
  by auto

lemma mapE_Inr:
  "mapE f xs = Inr ys \<Longrightarrow> length ys = length xs \<and> (\<forall>y\<in>set ys. \<exists>x\<in>set xs. f x = Inr y)"
proof (induction xs arbitrary: ys)
  case Nil
  then show ?case by simp
next
  case (Cons x xs)
  from Cons.prems obtain y ys' where y: "f x = Inr y" and ys': "mapE f xs = Inr ys'"
    and ys: "ys = y # ys'"
    unfolding mapE.simps bindE_Inr_iff by auto
  from Cons.IH [OF ys'] y ys show ?case by auto
qed

lemma MaCowStep_ctor_glow:
  "MaCowStep_ctor p c ks h sc scale iv ct sl nh pe dr = Inr st \<Longrightarrow>
   elem_in_channels (glow_step st) = c"
  using MaCowStep_ctor_units by fastforce

lemma MaCowTopBlock_ctor_channels:
  assumes "MaCowTopBlock_ctor p n c ks h sc scale iv ct sl nh pe dr = Inr tb"
  shows "\<forall>st\<in>set (MaCowTopBlock.steps tb). elem_in_channels (glow_step st) = c"
proof -
  from assms obtain idxs sts where
    m: "mapE (\<lambda>i. MaCowStep_ctor (p @ [Attr ''steps'', Idx i]) c ks h sc scale iv ct sl nh pe dr) idxs = Inr sts"
    and tb: "tb = \<lparr>inverse_flag = iv, steps = sts\<rparr>"
    unfolding MaCowTopBlock_ctor_def bindE_Inr_iff by auto
  from mapE_Inr [OF m] show ?thesis
    by (auto simp: tb dest: MaCowStep_ctor_glow)
qed

lemma internal_layers_result:
  "internal_layers E p ks h sc scale ps iv ct sl nh pe dr step j ns (c, f) = Inr (ls, prs, z) \<Longrightarrow>
   z = c - int (length ns) * step \<and> length ls = length ns \<and> length prs = length ns"
proof (induction ns arbitrary: j c f ls prs z)
  case Nil
  then show ?case by simp
next
  case (Cons n ns)
  let ?pr = "Prior (p @ [Attr ''priors'', Idx j]) c h sc ps iv f"
  from Cons.prems obtain layer ls' prs' where
    e: "c - step = e_z1_channels E ?pr"
    and r': "internal_layers E p ks h sc scale ps iv ct sl nh pe dr step (Suc j) ns
               (e_z1_channels E ?pr, f - 1) = Inr (ls', prs', z)"
    and l: "ls = layer # ls'" "prs = ?pr # prs'"
    unfolding internal_layers.simps bindE_Inr_iff Let_def
    by (auto simp: bindE_Inr_iff split: if_splits)
  from r' e have r: "internal_layers E p ks h sc scale ps iv ct sl nh pe dr step (Suc j) ns
               (c - step, f - 1) = Inr (ls', prs', z)"
    by simp
  from Cons.IH [OF r] l show ?case by (simp add: algebra_simps)
qed

lemma MaCowInternalBlock_ctor_z1:
  assumes "MaCowInternalBlock_ctor E p n c ks h sc f scale ps iv ct sl nh pe dr = Inr ib"
  shows "\<exists>ns. n = Counts ns \<and> int (length ns) < f \<and>
           z1_channels ib = c - int (length ns) * (c div f) \<and>
           length (layers ib) = length ns \<and> length (priors ib) = length ns"
proof -
  from assms obtain ns where n: "n = Counts ns"
    unfolding MaCowInternalBlock_ctor_def bindE_Inr_iff
    by (cases n) (auto simp: list_of_def)
  from assms n have f: "int (length ns) < f"
    by (auto simp: MaCowInternalBlock_ctor_def list_of_def Let_def split: if_splits)
  with assms n obtain ls prs z where
    r: "internal_layers E p ks h sc scale ps iv ct sl nh pe dr (c div f) 0 ns (c, f) = Inr (ls, prs, z)"
    and ib: "ib = \<lparr>inverse_flag = iv, layers = ls, priors = prs, z1_channels = z\<rparr>"
    unfolding MaCowInternalBlock_ctor_def bindE_Inr_iff
    by (auto simp: list_of_def Let_def bindE_Inr_iff split: if_splits)
  from internal_layers_result [OF r] n f ib show ?thesis by simp
qed

lemma kept_channels_bounds:
  assumes "0 \<le> (c::int)" "0 \<le> n" "n < f"
  shows "0 \<le> c - n * (c div f)" and "c - n * (c div f) \<le> c"
proof -
  have f: "0 < f" using assms by simp
  have d: "0 \<le> c div f" using assms(1) f by (simp add: pos_imp_zdiv_nonneg_iff)
  have "n * (c div f) \<le> f * (c div f)" using assms(3) d by (intro mult_right_mono) simp_all
  also have "\<dots> \<le> c"
  proof -
    have "f * (c div f) + c mod f = c" by simp
    moreover have "0 \<le> c mod f" using f by simp
    ultimately show ?thesis by linarith
  qed
  finally show "0 \<le> c - n * (c div f)" by simp
  show "c - n * (c div f) \<le> c" using assms(2) d by simp
qed


lemma MaCow_blocks_Cons_cases:
  assumes "MaCow_blocks E L ns ks fs hs scale ps iv bottom ct sls nh pe dr (level # rest) (c, sc) = Inr bs"
  obtains
    (bottom) bb bs' where "level = 0" "bottom"
      "MaCow_blocks E L ns ks fs hs scale ps iv bottom ct sls nh pe dr rest (c, sc) = Inr bs'"
      "bs = Bottom bb # bs'"
  | (top) tb bs' n h sl where "\<not> (level = 0 \<and> bottom)" "int level = L - 1"
      "MaCowTopBlock_ctor [Attr ''blocks'', Idx level] n (c * 4) ks h (sc * 4) scale iv ct sl nh pe dr = Inr tb"
      "MaCow_blocks E L ns ks fs hs scale ps iv bottom ct sls nh pe dr rest (c * 4, sc * 4) = Inr bs'"
      "bs = Top tb # bs'"
  | (internal) ib bs' n h sl f where "\<not> (level = 0 \<and> bottom)" "int level \<noteq> L - 1"
      "MaCowInternalBlock_ctor E [Attr ''blocks'', Idx level] n (c * 4) ks h (sc * 4) f scale ps iv ct sl nh pe dr = Inr ib"
      "MaCow_blocks E L ns ks fs hs scale ps iv bottom ct sls nh pe dr rest (z1_channels ib, sc * 4) = Inr bs'"
      "bs = Internal ib # bs'"
proof (cases "level = 0 \<and> bottom")
  case True
  with assms show ?thesis
    unfolding MaCow_blocks.simps
    by (auto simp: bindE_Inr_iff intro: bottom)
next
  case False
  show ?thesis
  proof (cases "int level = L - 1")
    case True
    with assms False show ?thesis
      unfolding MaCow_blocks.simps
      by (auto simp: bindE_Inr_iff Let_def intro: top)
  next
    case nt: False
    with assms False show ?thesis
      unfolding MaCow_blocks.simps
      by (auto simp: bindE_Inr_iff Let_def intro: internal)
  qed
qed

lemma top_channels_simps [simp]:
  "top_channels [] = []"
  "top_channels (Bottom bb # bs) = top_channels bs"
  "top_channels (Internal ib # bs) = top_channels bs"
  "top_channels (Top tb # bs) =
     map (\<lambda>st. elem_in_channels (glow_step st)) (MaCowTopBlock.steps tb) @ top_channels bs"
  by (simp_all add: top_channels_def)

lemma MaCow_blocks_top_bound:
  assumes "MaCow_blocks E L ns ks fs hs scale ps iv bottom ct sls nh pe dr ls (c, sc) = Inr bs"
    and "0 \<le> c"
  shows "\<forall>C\<in>set (top_channels bs).
           0 \<le> C \<and> C \<le> c * 4 ^ length (filter (\<lambda>l. \<not> (l = 0 \<and> bottom)) ls)"
  using assms
proof (induction ls arbitrary: c sc bs)
  case Nil
  then show ?case by simp
next
  case (Cons level rest)
  from Cons.prems(1) show ?case
  proof (cases rule: MaCow_blocks_Cons_cases)
    case (bottom bb bs')
    with Cons.IH [OF bottom(3) Cons.prems(2)] show ?thesis by simp
  next
    case (top tb bs' n h sl)
    have c4: "0 \<le> c * 4" using Cons.prems(2) by simp
    let ?k = "length (filter (\<lambda>l. \<not> (l = 0 \<and> bottom)) rest)"
    have "(1::int) \<le> 4 ^ ?k" by simp
    then have "c * 4 \<le> c * 4 * 4 ^ ?k"
      using mult_left_mono [of 1 "4 ^ ?k" "c * 4"] c4 by simp
    with MaCowTopBlock_ctor_channels [OF top(3)] Cons.IH [OF top(4) c4] top(1,5) c4
    show ?thesis by (auto simp: mult.assoc)
  next
    case (internal ib bs' n h sl f)
    have c4: "0 \<le> c * 4" using Cons.prems(2) by simp
    from MaCowInternalBlock_ctor_z1 [OF internal(3)] obtain xs :: "int list" where
      f: "int (length xs) < f" and z: "z1_channels ib = c * 4 - int (length xs) * (c * 4 div f)"
      by blast
    have z0: "0 \<le> z1_channels ib" and z4: "z1_channels ib \<le> c * 4"
      using kept_channels_bounds [OF c4 _ f] z by simp_all
    let ?k = "length (filter (\<lambda>l. \<not> (l = 0 \<and> bottom)) rest)"
    have le: "z1_channels ib * 4 ^ ?k \<le> c * 4 * 4 ^ ?k"
      using z4 by (intro mult_right_mono) simp_all
    have len: "length (filter (\<lambda>l. \<not> (l = 0 \<and> bottom)) (level # rest)) = Suc ?k"
      using internal(1) by simp
    have tc: "top_channels bs = top_channels bs'" using internal(5) by simp
    show ?thesis
    proof
      fix C assume "C \<in> set (top_channels bs)"
      with tc Cons.IH [OF internal(4) z0] have "0 \<le> C" "C \<le> z1_channels ib * 4 ^ ?k"
        by auto
      with le have "0 \<le> C" "C \<le> c * 4 * 4 ^ ?k" by linarith+
      then show "0 \<le> C \<and>
          C \<le> c * 4 ^ length (filter (\<lambda>l. \<not> (l = 0 \<and> bottom)) (level # rest))"
        unfolding len by (simp add: mult.assoc)
    qed
  qed
qed


lemma squeezed_levels:
  "length (filter (\<lambda>l. \<not> (l = 0 \<and> bottom)) [0..<n]) = (if bottom then n - 1 else n)"
proof (cases bottom)
  case False
  then show ?thesis by simp
next
  case True
  have "length (filter (\<lambda>l. l \<noteq> 0) [0..<n]) = n - 1"
  proof (cases n)
    case 0
    then show ?thesis by simp
  next
    case (Suc k)
    have "filter (\<lambda>l. l \<noteq> 0) [Suc 0..<Suc k] = [Suc 0..<Suc k]"
      by (intro filter_True) auto
    then show ?thesis using Suc by (simp add: upt_conv_Cons del: upt_Suc)
  qed
  with True show ?thesis by simp
qed

lemma guard_Inr: "((if c then Inl e else X) = Inr m) = (\<not> c \<and> X = Inr m)"
  by simp

lemma MaCow_ctor_blocks:
  assumes "MaCow_ctor E L ns c ks fs hs sc scale ps iv bottom ct sls nh pe dr = Inr m"
  shows "\<exists>fs' sls'. MaCow_blocks E L ns ks fs' hs scale ps iv bottom ct sls' nh pe dr
            [0..<nat L] (c, sc) = Inr (blocks m) \<and>
          internals m = (if bottom then L - 2 else L - 1) \<and> 1 < L"
proof -
  let ?fs = "if bottom then [0] @ fs @ [0] else fs @ [0]"
  let ?sls = "case sls of None \<Rightarrow> replicate (nat L) None | Some sl \<Rightarrow> sl"
  have r: "bindE (MaCow_blocks E L ns ks ?fs hs scale ps iv bottom ct ?sls nh pe dr
                 [0..<nat L] (c, sc))
          (\<lambda>blocks. Inr \<lparr>inverse_flag = iv, levels = L,
                            internals = (if bottom then L - 2 else L - 1),
                            blocks = blocks\<rparr>) = Inr m \<and> 1 < L"
    using assms unfolding MaCow_ctor_def Let_def guard_Inr by blast
  then have L: "1 < L" by blast
  from r have "bindE (MaCow_blocks E L ns ks ?fs hs scale ps iv bottom ct ?sls nh pe dr
                 [0..<nat L] (c, sc))
          (\<lambda>blocks. Inr \<lparr>inverse_flag = iv, levels = L,
                            internals = (if bottom then L - 2 else L - 1),
                            blocks = blocks\<rparr>) = Inr m" by blast
  then obtain bs where
    "MaCow_blocks E L ns ks ?fs hs scale ps iv bottom ct ?sls nh pe dr [0..<nat L] (c, sc) = Inr bs"
    "m = \<lparr>inverse_flag = iv, levels = L, internals = (if bottom then L - 2 else L - 1),
           blocks = bs\<rparr>"
    unfolding bindE_Inr_iff by auto
  with L show ?thesis by (intro exI [of _ ?fs] exI [of _ ?sls]) simp
qed

lemma internal_channels_simps [simp]:
  "internal_channels [] = []"
  "internal_channels (Bottom bb # bs) = internal_channels bs"
  "internal_channels (Top tb # bs) = internal_channels bs"
  "internal_channels (Internal ib # bs) = z1_channels ib # internal_channels bs"
  by (simp_all add: internal_channels_def)

lemma index_at_Inr: "index_at xs i = Inr v \<Longrightarrow> v = xs ! i"
  by (simp add: index_at_def split: if_splits)

lemma MaCow_blocks_internal_level:
  assumes "MaCow_blocks E L ns ks fs hs scale ps iv bottom ct sls nh pe dr (level # rest) (c, sc) = Inr bs"
    and "\<not> (level = 0 \<and> bottom)" and "int level \<noteq> L - 1"
  obtains ib bs' h sl where
      "MaCowInternalBlock_ctor E [Attr ''blocks'', Idx level] (ns ! level) (c * 4) ks h (sc * 4)
         (fs ! level) scale ps iv ct sl nh pe dr = Inr ib"
      "MaCow_blocks E L ns ks fs hs scale ps iv bottom ct sls nh pe dr rest (z1_channels ib, sc * 4) = Inr bs'"
      "bs = Internal ib # bs'"
proof -
  from assms obtain sl h n f ib bs' where
    n: "index_at ns level = Inr n" and f: "index_at fs level = Inr f"
    and ib: "MaCowInternalBlock_ctor E [Attr ''blocks'', Idx level] n (c * 4) ks h (sc * 4)
         f scale ps iv ct sl nh pe dr = Inr ib"
    and r: "MaCow_blocks E L ns ks fs hs scale ps iv bottom ct sls nh pe dr rest (z1_channels ib, sc * 4) = Inr bs'"
    and bs: "bs = Internal ib # bs'"
    unfolding MaCow_blocks.simps
    by (auto simp: bindE_Inr_iff Let_def)
  from index_at_Inr [OF n] index_at_Inr [OF f] ib r bs that show ?thesis by blast
qed

lemma kept_channels_value:
  assumes "MaCowInternalBlock_ctor E p n c ks h sc f scale ps iv ct sl nh pe dr = Inr ib"
  shows "z1_channels ib = c - num_layers_of n * (c div f)"
  using MaCowInternalBlock_ctor_z1 [OF assms] by (auto simp: num_layers_of_def)

lemma MaCow_blocks_plan:
  assumes "MaCow_blocks E L ns ks fs hs scale ps iv bottom ct sls nh pe dr [a..<nat L] (c, sc) = Inr bs"
    and "a < nat L" and "bottom \<longrightarrow> 0 < a"
  shows "internal_channels bs = channel_plan c (map (\<lambda>l. (ns ! l, fs ! l)) [a..<nat L - 1]) \<and>
         (\<forall>C\<in>set (top_channels bs).
            C = last (c # channel_plan c (map (\<lambda>l. (ns ! l, fs ! l)) [a..<nat L - 1])) * 4)"
  using assms
proof (induction "nat L - 1 - a" arbitrary: a c sc bs)
  case 0
  then have a: "a = nat L - 1" by simp
  then have la: "int a = L - 1" using "0.prems"(2) by simp
  have nb: "\<not> (a = 0 \<and> bottom)" using "0.prems"(3) by auto
  have upt: "[a..<nat L] = [a]" using a "0.prems"(2) by (simp add: upt_conv_Cons)
  from "0.prems"(1) [unfolded upt] show ?case
  proof (cases rule: MaCow_blocks_Cons_cases)
    case (top tb bs' n h sl)
    from top(4) have "bs' = []" by simp
    with MaCowTopBlock_ctor_channels [OF top(3)] top(5) a show ?thesis by auto
  qed (use la nb in simp_all)
next
  case (Suc k)
  then have lt: "a < nat L - 1" by simp
  then have la: "int a \<noteq> L - 1" by linarith
  have nb: "\<not> (a = 0 \<and> bottom)" using Suc.prems(3) by auto
  have upt: "[a..<nat L] = a # [Suc a..<nat L]" using Suc.prems(2) by (simp add: upt_conv_Cons)
  have upt': "[a..<nat L - 1] = a # [Suc a..<nat L - 1]" using lt by (simp add: upt_conv_Cons)
  from Suc.prems(1) [unfolded upt] nb la obtain ib bs' h sl where
    ib: "MaCowInternalBlock_ctor E [Attr ''blocks'', Idx a] (ns ! a) (c * 4) ks h (sc * 4)
         (fs ! a) scale ps iv ct sl nh pe dr = Inr ib"
    and r: "MaCow_blocks E L ns ks fs hs scale ps iv bottom ct sls nh pe dr [Suc a..<nat L]
         (z1_channels ib, sc * 4) = Inr bs'"
    and bs: "bs = Internal ib # bs'"
    by (rule MaCow_blocks_internal_level)
  have z: "z1_channels ib = kept_channels c (ns ! a, fs ! a)"
    using kept_channels_value [OF ib] by (simp add: kept_channels_def)
  have k: "k = nat L - 1 - Suc a" using Suc.hyps(2) by simp
  have sa: "Suc a < nat L" using lt by simp
  have "internal_channels bs' =
          channel_plan (z1_channels ib) (map (\<lambda>l. (ns ! l, fs ! l)) [Suc a..<nat L - 1]) \<and>
        (\<forall>C\<in>set (top_channels bs').
            C = last (z1_channels ib #
                  channel_plan (z1_channels ib) (map (\<lambda>l. (ns ! l, fs ! l)) [Suc a..<nat L - 1])) * 4)"
    by (rule Suc.hyps(1) [OF k r sa]) simp
  with z bs show ?case
    unfolding upt' by simp
qed

lemma MaCow_ctor_plan_blocks:
  assumes "MaCow_ctor E L ns c ks fs hs sc scale ps iv bottom ct sls nh pe dr = Inr m"
  shows "\<exists>sls'. MaCow_blocks E L ns ks (if bottom then [0] @ fs @ [0] else fs @ [0]) hs scale ps iv
            bottom ct sls' nh pe dr [0..<nat L] (c, sc) = Inr (blocks m)"
    and "1 < L" and "L = int (length ns)"
    and "L = int (length (if bottom then [0] @ fs @ [0] else fs @ [0]))"
proof -
  let ?fs = "if bottom then [0] @ fs @ [0] else fs @ [0]"
  let ?sls = "case sls of None \<Rightarrow> replicate (nat L) None | Some sl \<Rightarrow> sl"
  have r: "bindE (MaCow_blocks E L ns ks ?fs hs scale ps iv bottom ct ?sls nh pe dr
                 [0..<nat L] (c, sc))
          (\<lambda>blocks. Inr \<lparr>inverse_flag = iv, levels = L,
                            internals = (if bottom then L - 2 else L - 1),
                            blocks = blocks\<rparr>) = Inr m \<and> 1 < L \<and> L = int (length ns) \<and>
           L = int (length ?fs)"
    using assms unfolding MaCow_ctor_def Let_def guard_Inr by blast
  then show "1 < L" "L = int (length ns)" "L = int (length ?fs)" by blast+
  from r have "bindE (MaCow_blocks E L ns ks ?fs hs scale ps iv bottom ct ?sls nh pe dr
                 [0..<nat L] (c, sc))
          (\<lambda>blocks. Inr \<lparr>inverse_flag = iv, levels = L,
                            internals = (if bottom then L - 2 else L - 1),
                            blocks = blocks\<rparr>) = Inr m" by blast
  then obtain bs where
    "MaCow_blocks E L ns ks ?fs hs scale ps iv bottom ct ?sls nh pe dr [0..<nat L] (c, sc) = Inr bs"
    "m = \<lparr>inverse_flag = iv, levels = L, internals = (if bottom then L - 2 else L - 1),
           blocks = bs\<rparr>"
    unfolding bindE_Inr_iff by auto
  then show "\<exists>sls'. MaCow_blocks E L ns ks ?fs hs scale ps iv
            bottom ct sls' nh pe dr [0..<nat L] (c, sc) = Inr (blocks m)"
    by (intro exI [of _ ?sls]) simp
qed

lemma internal_levels_of_bottom:
  assumes "length ns = n" "length fs = n - 2" "1 < n"
  shows "map (\<lambda>l. (ns ! l, ([0] @ fs @ [0]) ! l)) [Suc 0..<n - 1] =
         zip (take (n - 2) (drop 1 ns)) fs"
proof (intro nth_equalityI)
  show "length (map (\<lambda>l. (ns ! l, ([0] @ fs @ [0]) ! l)) [Suc 0..<n - 1]) =
        length (zip (take (n - 2) (drop 1 ns)) fs)"
    using assms by simp
next
  fix i assume "i < length (map (\<lambda>l. (ns ! l, ([0] @ fs @ [0]) ! l)) [Suc 0..<n - 1])"
  then have i: "i < n - 2" by simp
  then have i': "Suc 0 + i < n - 1" by simp
  have "[Suc 0..<n - 1] ! i = Suc i" using nth_upt [OF i'] by simp
  then show "map (\<lambda>l. (ns ! l, ([0] @ fs @ [0]) ! l)) [Suc 0..<n - 1] ! i =
        zip (take (n - 2) (drop 1 ns)) fs ! i"
    using assms i by (simp add: nth_append)
qed

lemma internal_levels_of_no_bottom:
  assumes "length ns = n" "length fs = n - 1" "1 < n"
  shows "map (\<lambda>l. (ns ! l, (fs @ [0]) ! l)) [0..<n - 1] = zip (take (n - 1) ns) fs"
proof (intro nth_equalityI)
  show "length (map (\<lambda>l. (ns ! l, (fs @ [0]) ! l)) [0..<n - 1]) = length (zip (take (n - 1) ns) fs)"
    using assms by simp
next
  fix i assume "i < length (map (\<lambda>l. (ns ! l, (fs @ [0]) ! l)) [0..<n - 1])"
  then have i: "i < n - 1" by simp
  then show "map (\<lambda>l. (ns ! l, (fs @ [0]) ! l)) [0..<n - 1] ! i = zip (take (n - 1) ns) fs ! i"
    using assms by (simp add: nth_append)
qed

lemma MaCow_ctor_plan:
  assumes "MaCow_ctor E L ns c ks fs hs sc scale ps iv bottom ct sls nh pe dr = Inr m"
  shows "internal_channels (blocks m) = channel_plan c (internal_levels_of L bottom ns fs) \<and>
         (\<forall>C\<in>set (top_channels (blocks m)). C = planned_top_channels L bottom ns fs c)"
proof -
  let ?fs = "if bottom then [0] @ fs @ [0] else fs @ [0]"
  from MaCow_ctor_plan_blocks [OF assms] obtain sls' where
    b: "MaCow_blocks E L ns ks ?fs hs scale ps iv bottom ct sls' nh pe dr [0..<nat L] (c, sc) =
        Inr (blocks m)"
    and L: "1 < L" and ln: "L = int (length ns)" and lf: "L = int (length ?fs)"
    by blast
  have n: "length ns = nat L" using ln by simp
  have n1: "1 < nat L" using L by simp
  show ?thesis
  proof (cases bottom)
    case True
    have f: "length fs = nat L - 2" using lf True by simp
    have upt: "[0..<nat L] = 0 # [Suc 0..<nat L]" using n1 by (simp add: upt_conv_Cons)
    from b [unfolded upt] obtain bb bs' where
      r: "MaCow_blocks E L ns ks ?fs hs scale ps iv bottom ct sls' nh pe dr [Suc 0..<nat L] (c, sc) =
          Inr bs'"
      and bs: "blocks m = Bottom bb # bs'"
      by (cases rule: MaCow_blocks_Cons_cases) (use True in simp_all)
    have il: "internal_levels_of L bottom ns fs =
        map (\<lambda>l. (ns ! l, ?fs ! l)) [Suc 0..<nat L - 1]"
      using internal_levels_of_bottom [OF n f n1] True by (simp add: internal_levels_of_def)
    have "Suc 0 < nat L" using n1 by simp
    from MaCow_blocks_plan [OF r this] bs show ?thesis
      unfolding planned_top_channels_def il by simp
  next
    case False
    have f: "length fs = nat L - 1" using lf False by simp
    have il: "internal_levels_of L bottom ns fs = map (\<lambda>l. (ns ! l, ?fs ! l)) [0..<nat L - 1]"
      using internal_levels_of_no_bottom [OF n f n1] False by (simp add: internal_levels_of_def)
    have "0 < nat L" using n1 by simp
    from MaCow_blocks_plan [OF b this] False show ?thesis
      unfolding planned_top_channels_def il by simp
  qed
qed


text \<open>
  C6, as amended. In a pyramid that \<open>MaCow.__init__\<close> builds from \<open>in_channels = c\<close>
  with \<open>L\<close> levels, every internal level passes on the \<open>z1_channels\<close> of the channel
  plan: of the \<open>4 * c'\<close> channels it squeezes to, it keeps
  \<open>4 * c' - len(num_steps[level]) * (4 * c' // factors[level])\<close>. Every step of the top
  level is built for four times the count that the last level below the top passes on.
  That count is \<open>c * 4 ^ (L - 1)\<close> when \<open>L = 2\<close> with a bottom level, where no
  internal level splits channels off; for \<open>c \<ge> 0\<close> it is at most \<open>c * 4 ^ (L - 1)\<close>
  with a bottom level and at most \<open>c * 4 ^ L\<close> without one.
\<close>

theorem top_level_channel_count:
  assumes "MaCow_ctor E L ns c ks fs hs sc scale ps iv bottom ct sls nh pe dr = Inr m"
  shows "internal_channels (blocks m) = channel_plan c (internal_levels_of L bottom ns fs) \<and>
         (\<forall>C\<in>set (top_channels (blocks m)). C = planned_top_channels L bottom ns fs c) \<and>
         (bottom \<and> L = 2 \<longrightarrow> planned_top_channels L bottom ns fs c = c * 4 ^ (nat L - 1)) \<and>
         (0 \<le> c \<longrightarrow>
            (\<forall>C\<in>set (top_channels (blocks m)).
               C \<le> c * 4 ^ (if bottom then nat L - 1 else nat L)))"
proof -
  from MaCow_ctor_plan_blocks(1) [OF assms] obtain sls' where
    b: "MaCow_blocks E L ns ks (if bottom then [0] @ fs @ [0] else fs @ [0]) hs scale ps iv
          bottom ct sls' nh pe dr [0..<nat L] (c, sc) = Inr (blocks m)"
    by blast
  have 3: "planned_top_channels L bottom ns fs c = c * 4 ^ (nat L - 1)" if "bottom \<and> L = 2"
    using that by (simp add: planned_top_channels_def internal_levels_of_def)
  have 4: "\<forall>C\<in>set (top_channels (blocks m)). C \<le> c * 4 ^ (if bottom then nat L - 1 else nat L)"
    if "0 \<le> c"
    using MaCow_blocks_top_bound [OF b that] unfolding squeezed_levels by blast
  from MaCow_ctor_plan [OF assms] 3 4 show ?thesis by blast
qed

lemmas ctor_eval =
  MaCow_ctor_def MaCowBottomBlock_ctor_def MaCowTopBlock_ctor_def MaCowInternalBlock_ctor_def
  MaCowStep_ctor_def MaCowUnit_ctor_def index_at_def range_of_def list_of_def
  plain_externals_def upt_conv_Cons Let_def

lemma three_level_top_channels:
  "top_channels_of
     (MaCow_ctor plain_externals 3 [Count 1, Counts [1], Count 1] 3 [3, 3] [2] [8, 8, 8] 0
        True True False True ''conv'' None 1 True 0) = Inr [24]"
  by (simp add: top_channels_of_def top_channels_def ctor_eval)

lemma two_level_top_channels:
  "top_channels_of
     (MaCow_ctor plain_externals 2 [Count 1, Count 2] 3 [3, 3] [] [8, 8] 0
        True True False True ''conv'' None 1 True 0) = Inr [12, 12]"
  by (simp add: top_channels_of_def top_channels_def ctor_eval)


lemma three_level_internal_channels:
  "internal_channels_of
     (MaCow_ctor plain_externals 3 [Count 1, Counts [1], Count 1] 3 [3, 3] [2] [8, 8, 8] 0
        True True False True ''conv'' None 1 True 0) = Inr [6]"
  by (simp add: internal_channels_of_def internal_channels_def ctor_eval)

lemma channels_of_ctor:
  assumes "top_channels_of r = Inr Cs"
  obtains m where "r = Inr m" "top_channels (blocks m) = Cs"
    "internal_channels_of r = Inr (internal_channels (blocks m))"
  using assms by (cases r) (simp_all add: top_channels_of_def internal_channels_of_def)

theorem top_level_channel_count_witness:
  "top_channels_of
     (MaCow_ctor plain_externals 2 [Count 1, Count 2] 3 [3, 3] [] [8, 8] 0
        True True False True ''conv'' None 1 True 0) = Inr [12, 12] \<and>
   internal_channels_of
     (MaCow_ctor plain_externals 2 [Count 1, Count 2] 3 [3, 3] [] [8, 8] 0
        True True False True ''conv'' None 1 True 0) = Inr [] \<and>
   planned_top_channels 2 True [Count 1, Count 2] [] 3 = 12 \<and>
   (12::int) = 3 * 4 ^ (nat 2 - 1) \<and>
   top_channels_of
     (MaCow_ctor plain_externals 3 [Count 1, Counts [1], Count 1] 3 [3, 3] [2] [8, 8, 8] 0
        True True False True ''conv'' None 1 True 0) = Inr [24] \<and>
   internal_channels_of
     (MaCow_ctor plain_externals 3 [Count 1, Counts [1], Count 1] 3 [3, 3] [2] [8, 8, 8] 0
        True True False True ''conv'' None 1 True 0) = Inr [6] \<and>
   planned_top_channels 3 True [Count 1, Counts [1], Count 1] [2] 3 = 24 \<and>
   (24::int) \<le> 3 * 4 ^ (nat 3 - 1)"
proof -
  from two_level_top_channels obtain m2 where
    m2: "MaCow_ctor plain_externals 2 [Count 1, Count 2] 3 [3, 3] [] [8, 8] 0
           True True False True ''conv'' None 1 True 0 = Inr m2"
    and t2: "top_channels (blocks m2) = [12, 12]"
    and i2: "internal_channels_of
       (MaCow_ctor plain_externals 2 [Count 1, Count 2] 3 [3, 3] [] [8, 8] 0
          True True False True ''conv'' None 1 True 0) = Inr (internal_channels (blocks m2))"
    by (rule channels_of_ctor)
  from three_level_top_channels obtain m3 where
    m3: "MaCow_ctor plain_externals 3 [Count 1, Counts [1], Count 1] 3 [3, 3] [2] [8, 8, 8] 0
           True True False True ''conv'' None 1 True 0 = Inr m3"
    and t3: "top_channels (blocks m3) = [24]"
    and i3: "internal_channels_of
       (MaCow_ctor plain_externals 3 [Count 1, Counts [1], Count 1] 3 [3, 3] [2] [8, 8, 8] 0
          True True False True ''conv'' None 1 True 0) = Inr (internal_channels (blocks m3))"
    by (rule channels_of_ctor)
  have p2: "channel_plan 3 (internal_levels_of 2 True [Count 1, Count 2] []) = []"
    by (simp add: internal_levels_of_def)
  have p3: "channel_plan 3 (internal_levels_of 3 True [Count 1, Counts [1], Count 1] [2]) = [6]"
    by (simp add: internal_levels_of_def kept_channels_def num_layers_of_def)
  from top_level_channel_count [OF m2] top_level_channel_count [OF m3]
    two_level_top_channels three_level_top_channels
  show ?thesis
    unfolding t2 t3 i2 i3 p2 p3 by simp
qed

text \<open>
  C6, as stated, fails: with three levels (a bottom, an internal level of factor 2 with
  one layer, a top) and three input channels, the top level has 24 channels, not
  \<open>3 * 4 ^ (3 - 1) = 48\<close>: the internal level passes on 6 of its 12 channels.
\<close>

theorem top_level_channel_count_counterexample:
  "top_channels_of
     (MaCow_ctor plain_externals 3 [Count 1, Counts [1], Count 1] 3 [3, 3] [2] [8, 8, 8] 0
        True True False True ''conv'' None 1 True 0) = Inr [24] \<and>
   (24::int) \<noteq> 3 * 4 ^ (3 - 1)"
  using three_level_top_channels by simp

end
